theory Spec2Isabelle
  imports Main
begin

section \<open>The bearer-token transport of go-containerregistry\<close>

text \<open>
  A shallow embedding of \<^verbatim>\<open>pkg/v1/remote/transport/bearer.go\<close>: the request dispatcher
  \<^verbatim>\<open>RoundTrip\<close>, the flow selector \<^verbatim>\<open>refresh\<close>, the two token fetchers
  \<^verbatim>\<open>refreshOauth\<close> and \<^verbatim>\<open>refreshBasic\<close>, and the host canonicalisation
  \<^verbatim>\<open>canonicalAddress\<close>. Go strings are byte sequences and are modelled as \<open>string\<close>.
\<close>

subsection \<open>Errors\<close>

text \<open>
  Every error value the code can return, and the one panic it can raise, is a value of
  \<open>error\<close>; a fallible function returns \<open>error + 'a\<close> with \<open>Inl\<close> for the error.
  \<open>ExternalError\<close> stands for any error produced by a collaborator (the wrapped transport,
  the HTTP client, the URL parser, the JSON decoder, a credential provider), named by its
  message.
\<close>

datatype body = Bytes string | Unreadable string

datatype error =
    AddrError string string
  | Panic string
  | Errorf string
  | StatusError int body
  | ExternalError string

subsection \<open>Helpers of the Go standard library\<close>

text \<open>
  \<^verbatim>\<open>strings.Count(s, ":")\<close> counts the occurrences of a one-byte separator; the code calls
  it with \<^verbatim>\<open>":"\<close> only, so the separator is a byte here.
\<close>

fun strings_Count :: "string \<Rightarrow> char \<Rightarrow> nat" where
  "strings_Count [] c = 0"
| "strings_Count (x # xs) c = (if x = c then Suc (strings_Count xs c) else strings_Count xs c)"

fun strings_HasPrefix :: "string \<Rightarrow> string \<Rightarrow> bool" where
  "strings_HasPrefix s [] = True"
| "strings_HasPrefix [] (p # ps) = False"
| "strings_HasPrefix (x # xs) (p # ps) = (x = p \<and> strings_HasPrefix xs ps)"

fun strings_Contains :: "string \<Rightarrow> string \<Rightarrow> bool" where
  "strings_Contains [] substr = strings_HasPrefix [] substr"
| "strings_Contains (x # xs) substr =
     (strings_HasPrefix (x # xs) substr \<or> strings_Contains xs substr)"

fun strings_Join :: "string list \<Rightarrow> string \<Rightarrow> string" where
  "strings_Join [] sep = []"
| "strings_Join [e] sep = e"
| "strings_Join (e # es) sep = e @ sep @ strings_Join es sep"

text \<open>
  \<^verbatim>\<open>bytealg.IndexByteString\<close> and \<^verbatim>\<open>bytealg.LastIndexByteString\<close>: the index of the
  first and of the last occurrence of a byte; Go's \<^verbatim>\<open>-1\<close> is \<open>None\<close>.
\<close>

fun IndexByteString :: "string \<Rightarrow> char \<Rightarrow> nat option" where
  "IndexByteString [] c = None"
| "IndexByteString (x # xs) c =
     (if x = c then Some 0 else map_option Suc (IndexByteString xs c))"

fun LastIndexByteString :: "string \<Rightarrow> char \<Rightarrow> nat option" where
  "LastIndexByteString [] c = None"
| "LastIndexByteString (x # xs) c =
     (case LastIndexByteString xs c of
        Some i \<Rightarrow> Some (Suc i)
      | None \<Rightarrow> if x = c then Some 0 else None)"

text \<open>
  \<^verbatim>\<open>net.SplitHostPort\<close>. The tail of the function, after \<^verbatim>\<open>host\<close>, \<^verbatim>\<open>j\<close> and
  \<^verbatim>\<open>k\<close> are set, is \<open>splitTail\<close>: it refuses a \<^verbatim>\<open>[\<close> from index \<^verbatim>\<open>j\<close> on and a
  \<^verbatim>\<open>]\<close> from index \<^verbatim>\<open>k\<close> on, and the port is what follows the last colon, at \<^verbatim>\<open>i\<close>.
  The slice \<^verbatim>\<open>hostport[1:end]\<close> is \<open>take (end - 1) (drop 1 hostport)\<close>. The index
  \<^verbatim>\<open>hostport[0]\<close> is read only after a colon was found, so the string is not empty there,
  and \<^verbatim>\<open>hostport[end+1]\<close> only when \<^verbatim>\<open>end + 1 < len(hostport)\<close>.
\<close>

definition missingPort :: string where
  "missingPort = ''missing port in address''"

definition tooManyColons :: string where
  "tooManyColons = ''too many colons in address''"

definition splitTail :: "string \<Rightarrow> string \<Rightarrow> nat \<Rightarrow> nat \<Rightarrow> nat \<Rightarrow> error + (string \<times> string)" where
  "splitTail hostport host j k i =
     (if IndexByteString (drop j hostport) (CHR ''['') \<noteq> None
      then Inl (AddrError ''unexpected '[' in address'' hostport)
      else if IndexByteString (drop k hostport) (CHR '']'') \<noteq> None
      then Inl (AddrError ''unexpected ']' in address'' hostport)
      else Inr (host, drop (i + 1) hostport))"

definition net_SplitHostPort :: "string \<Rightarrow> error + (string \<times> string)" where
  "net_SplitHostPort hostport =
     (case LastIndexByteString hostport (CHR '':'') of
        None \<Rightarrow> Inl (AddrError missingPort hostport)
      | Some i \<Rightarrow>
          if hostport ! 0 = CHR ''[''
          then (case IndexByteString hostport (CHR '']'') of
                  None \<Rightarrow> Inl (AddrError ''missing ']' in address'' hostport)
                | Some end \<Rightarrow>
                    if end + 1 = length hostport then Inl (AddrError missingPort hostport)
                    else if end + 1 = i
                    then splitTail hostport (take (end - 1) (drop 1 hostport)) 1 (end + 1) i
                    else if hostport ! (end + 1) = CHR '':''
                    then Inl (AddrError tooManyColons hostport)
                    else Inl (AddrError missingPort hostport))
          else (let host = take i hostport in
                if IndexByteString host (CHR '':'') \<noteq> None
                then Inl (AddrError tooManyColons hostport)
                else splitTail hostport host 0 0 i))"

text \<open>\<^verbatim>\<open>net.JoinHostPort\<close>: a host with a colon is taken for a literal IPv6 address.\<close>

definition net_JoinHostPort :: "string \<Rightarrow> string \<Rightarrow> string" where
  "net_JoinHostPort host port =
     (if IndexByteString host (CHR '':'') \<noteq> None
      then ''['' @ host @ '']:'' @ port
      else host @ '':'' @ port)"

subsection \<open>Data model\<close>

text \<open>
  Modelled from the spec: the authorization materials \<^verbatim>\<open>authn.AuthConfig\<close>; package
  \<^verbatim>\<open>authn\<close> is imported by bearer.go and is not part of the sources. Section 6 gives the
  credential provider the capability
  \<^verbatim>\<open>authorization() -> {username, password, identity_token} | error\<close>. \<open>RegistryToken\<close> is
  the field through which the bearer credential hands out its token: bearer.go reads
  \<^verbatim>\<open>auth.RegistryToken\<close>.
\<close>

record AuthConfig =
  Username :: string
  Password :: string
  IdentityToken :: string
  RegistryToken :: string

text \<open>
  Modelled from the spec: the credential provider \<^verbatim>\<open>authn.Authenticator\<close> and its
  \<^verbatim>\<open>Authorization()\<close>, which yields the authorization materials or an error (section 6).
  A provider is the result it yields: it is asked anew at every use and answers the same
  until \<^verbatim>\<open>refresh\<close> replaces it.
\<close>

datatype Authenticator = Authenticator "error + AuthConfig"

fun Authorization :: "Authenticator \<Rightarrow> error + AuthConfig" where
  "Authorization (Authenticator r) = r"

text \<open>
  Modelled from the spec: \<^verbatim>\<open>authn.FromConfig\<close>, which section 4.2 uses to build a new
  identity-token-based credential from a refresh token: the provider that yields the
  configuration it was built from.
\<close>

definition FromConfig :: "AuthConfig \<Rightarrow> Authenticator" where
  "FromConfig cfg = Authenticator (Inr cfg)"

text \<open>
  Modelled from the spec: the bearer credential \<^verbatim>\<open>authn.Bearer\<close>, which holds a single
  opaque token string (section 3), and its \<^verbatim>\<open>Authorization()\<close>, which yields that token as
  \<open>RegistryToken\<close>. \<^verbatim>\<open>bt.bearer\<close> is a pointer: \<open>None\<close> is the nil pointer, on which the
  call panics when it reads the token.
\<close>

record Bearer =
  Bearer_Token :: string

definition Bearer_Authorization :: "Bearer option \<Rightarrow> error + AuthConfig" where
  "Bearer_Authorization b =
     (case b of
        None \<Rightarrow> Inl (Panic ''invalid memory address or nil pointer dereference'')
      | Some br \<Rightarrow> Inr \<lparr>Username = [], Password = [], IdentityToken = [],
                         RegistryToken = Bearer_Token br\<rparr>)"

text \<open>
  The transport. The field \<^verbatim>\<open>inner\<close> (the wrapped \<^verbatim>\<open>http.RoundTripper\<close>) is part of the
  environment below; \<open>registry\<close> holds the string \<^verbatim>\<open>bt.registry.RegistryStr()\<close> returns.
\<close>

record bearerTransport =
  basic :: Authenticator
  bearer :: "Bearer option"
  registry :: string
  realm :: string
  service :: string
  scopes :: "string list"
  scheme :: string

text \<open>
  \<^verbatim>\<open>http.Header\<close> and \<^verbatim>\<open>url.Values\<close> are maps from a key to a list of values, and
  \<^verbatim>\<open>Set\<close> replaces the list by the one value. (\<^verbatim>\<open>Header.Set\<close> first brings the key
  into canonical MIME form; the two keys the code sets are in that form already.)
\<close>

type_synonym Values = "string \<rightharpoonup> string list"

definition Values_Set :: "Values \<Rightarrow> string \<Rightarrow> string \<Rightarrow> Values" where
  "Values_Set v key val = v(key \<mapsto> [val])"

definition Header_Set :: "Values \<Rightarrow> string \<Rightarrow> string \<Rightarrow> Values" where
  "Header_Set h key val = h(key \<mapsto> [val])"

record url =
  URL_Scheme :: string
  URL_Host :: string
  URL_Path :: string
  URL_RawQuery :: string

record request =
  Method :: string
  URL :: url
  Host :: string
  Header :: Values

record response =
  StatusCode :: int
  Body :: body

definition StatusOK :: int where
  "StatusOK = 200"

definition StatusUnauthorized :: int where
  "StatusUnauthorized = 401"

text \<open>\<^verbatim>\<open>ioutil.ReadAll\<close>: the bytes of the body, or the error reading it ends with.\<close>

fun ioutil_ReadAll :: "body \<Rightarrow> error + string" where
  "ioutil_ReadAll (Bytes b) = Inr b"
| "ioutil_ReadAll (Unreadable msg) = Inl (ExternalError msg)"

text \<open>
  Modelled from the spec: \<^verbatim>\<open>CheckError\<close>, declared in another file of the package that is
  not part of the sources. Section 6: \<^verbatim>\<open>check(response, expectedStatus) -> error | nil\<close>
  inspects a non-matching status and produces a descriptive error; section 7 (d): a
  non-200 status from a token endpoint is a classified error with status/body detail.
\<close>

definition CheckError :: "response \<Rightarrow> int \<Rightarrow> error option" where
  "CheckError resp code =
     (if StatusCode resp = code then None
      else Some (StatusError (StatusCode resp) (Body resp)))"

record tokenResponse =
  Token :: string
  AccessToken :: string
  RefreshToken :: string

text \<open>
  The \<^verbatim>\<open>basicTransport\<close> that \<^verbatim>\<open>refreshBasic\<close> builds around \<^verbatim>\<open>bt.inner\<close>: its fields
  \<^verbatim>\<open>auth\<close> and \<^verbatim>\<open>target\<close> (\<^verbatim>\<open>inner\<close> is part of the environment below).
\<close>

record basicTransport =
  basic_auth :: Authenticator
  basic_target :: string

subsection \<open>The environment\<close>

text \<open>
  What the transport does to the outside is recorded as a list of events, oldest first:
  a request that \<^verbatim>\<open>RoundTrip\<close> hands to the wrapped transport, a form posted and a URL
  fetched through an \<^verbatim>\<open>http.Client\<close> (what the client does below that call, redirects
  included, is the client's). The entry into \<^verbatim>\<open>refresh\<close> and into each token flow is
  recorded too, so that attempts are counted even when they fail before any network call;
  these two kinds of events stand for no call. The outside answers a call as a function of
  everything recorded so far and of the call, which covers every deterministic transport
  and token service, with or without state.
\<close>

datatype flow = Oauth | Basic

datatype event =
    RoundTripEv request
  | PostFormEv string Values
  | GetEv basicTransport string
  | RefreshEv
  | FlowEv flow

text \<open>
  The environment: the wrapped transport \<^verbatim>\<open>bt.inner\<close>; \<^verbatim>\<open>http.Client.PostForm\<close> over it;
  \<^verbatim>\<open>http.Client.Get\<close> over a \<^verbatim>\<open>basicTransport\<close> around it; \<^verbatim>\<open>url.Parse\<close>,
  \<^verbatim>\<open>URL.String\<close>, \<^verbatim>\<open>Values.Encode\<close> and \<^verbatim>\<open>json.Unmarshal\<close> into a
  \<^verbatim>\<open>tokenResponse\<close> of the standard library; and the package constant
  \<^verbatim>\<open>transportName\<close>, declared outside bearer.go.
\<close>

record env =
  inner_RoundTrip :: "event list \<Rightarrow> request \<Rightarrow> error + response"
  client_PostForm :: "event list \<Rightarrow> string \<Rightarrow> Values \<Rightarrow> error + response"
  client_Get :: "event list \<Rightarrow> basicTransport \<Rightarrow> string \<Rightarrow> error + response"
  url_Parse :: "string \<Rightarrow> error + url"
  url_String :: "url \<Rightarrow> string"
  Values_Encode :: "Values \<Rightarrow> string"
  json_Unmarshal :: "string \<Rightarrow> error + tokenResponse"
  transportName :: string

subsection \<open>canonicalAddress\<close>

text \<open>\<^verbatim>\<open>portMap[bt.scheme]\<close>: a key that is not in a Go map reads as the empty string.\<close>

definition portMap :: "string \<rightharpoonup> string" where
  "portMap = [''http'' \<mapsto> ''80'', ''https'' \<mapsto> ''443'']"

definition portMap_get :: "string \<Rightarrow> string" where
  "portMap_get key = (case portMap key of None \<Rightarrow> [] | Some port \<Rightarrow> port)"

definition canonicalAddress :: "bearerTransport \<Rightarrow> string \<Rightarrow> string" where
  "canonicalAddress bt host =
     (if strings_Count host (CHR '':'') = 1
         \<or> (strings_Count host (CHR '':'') \<ge> 2 \<and> strings_Contains host '']:'')
      then (case net_SplitHostPort host of
              Inl err \<Rightarrow> host
            | Inr (hostname, port) \<Rightarrow>
                net_JoinHostPort hostname (if port = [] then portMap_get (scheme bt) else port))
      else net_JoinHostPort host (portMap_get (scheme bt)))"


subsection \<open>The request dispatcher\<close>

text \<open>
  The closure \<^verbatim>\<open>sendRequest\<close> of \<^verbatim>\<open>RoundTrip\<close>. It writes to the caller's request
  \<^verbatim>\<open>in\<close> in place, so the request as it was sent is returned with the result. A panic of
  \<^verbatim>\<open>bt.bearer.Authorization()\<close> on a nil pointer ends the call like an error.
\<close>

definition sendRequest ::
  "env \<Rightarrow> bearerTransport \<Rightarrow> request \<Rightarrow> event list
     \<Rightarrow> (error + response) \<times> request \<times> event list" where
  "sendRequest env bt req h =
     (case Bearer_Authorization (bearer bt) of
        Inl err \<Rightarrow> (Inl err, req, h)
      | Inr auth \<Rightarrow>
          (let canonicalHeaderHost = canonicalAddress bt (Host req);
               canonicalURLHost = canonicalAddress bt (URL_Host (URL req));
               canonicalRegistryHost = canonicalAddress bt (registry bt);
               req1 = (if canonicalHeaderHost = canonicalRegistryHost
                          \<or> canonicalURLHost = canonicalRegistryHost
                       then req\<lparr>Header := Header_Set (Header req) ''Authorization''
                                            (''Bearer '' @ RegistryToken auth),
                                URL := (URL req)\<lparr>URL_Scheme := scheme bt\<rparr>\<rparr>
                       else req);
               req2 = req1\<lparr>Header := Header_Set (Header req1) ''User-Agent'' (transportName env)\<rparr>
           in (inner_RoundTrip env h req2, req2, h @ [RoundTripEv req2])))"

subsection \<open>The token fetchers\<close>

text \<open>The form of \<^verbatim>\<open>refreshOauth\<close>: \<^verbatim>\<open>v := url.Values{}\<close> and the calls of \<^verbatim>\<open>v.Set\<close>.\<close>

definition oauthForm :: "env \<Rightarrow> bearerTransport \<Rightarrow> AuthConfig \<Rightarrow> Values" where
  "oauthForm env bt auth =
     (let v0 = Map.empty;
          v1 = Values_Set v0 ''scope'' (strings_Join (scopes bt) '' '');
          v2 = Values_Set v1 ''service'' (service bt);
          v3 = Values_Set v2 ''client_id'' (transportName env)
      in if IdentityToken auth \<noteq> []
         then Values_Set (Values_Set v3 ''grant_type'' ''refresh_token'')
                ''refresh_token'' (IdentityToken auth)
         else if Username auth \<noteq> [] \<and> Password auth \<noteq> []
         then Values_Set (Values_Set (Values_Set (Values_Set v3 ''grant_type'' ''password'')
                ''username'' (Username auth)) ''password'' (Password auth))
                ''access_type'' ''offline''
         else v3)"

definition refreshOauth ::
  "env \<Rightarrow> bearerTransport \<Rightarrow> event list \<Rightarrow> (error + string) \<times> event list" where
  "refreshOauth env bt h =
     (let h0 = h @ [FlowEv Oauth] in
      case Authorization (basic bt) of
        Inl err \<Rightarrow> (Inl err, h0)
      | Inr auth \<Rightarrow>
          (case url_Parse env (realm bt) of
             Inl err \<Rightarrow> (Inl err, h0)
           | Inr u \<Rightarrow>
               (let v = oauthForm env bt auth;
                    h1 = h0 @ [PostFormEv (url_String env u) v]
                in case client_PostForm env h0 (url_String env u) v of
                     Inl err \<Rightarrow> (Inl err, h1)
                   | Inr resp \<Rightarrow>
                       (case CheckError resp StatusOK of
                          Some err \<Rightarrow> (Inl err, h1)
                        | None \<Rightarrow> (ioutil_ReadAll (Body resp), h1)))))"

definition refreshBasic ::
  "env \<Rightarrow> bearerTransport \<Rightarrow> event list \<Rightarrow> (error + string) \<times> event list" where
  "refreshBasic env bt h =
     (let h0 = h @ [FlowEv Basic] in
      case url_Parse env (realm bt) of
        Inl err \<Rightarrow> (Inl err, h0)
      | Inr u \<Rightarrow>
          (let b = \<lparr>basic_auth = basic bt, basic_target = URL_Host u\<rparr>;
               u1 = u\<lparr>URL_RawQuery :=
                      Values_Encode env [''scope'' \<mapsto> scopes bt, ''service'' \<mapsto> [service bt]]\<rparr>;
               h1 = h0 @ [GetEv b (url_String env u1)]
           in case client_Get env h0 b (url_String env u1) of
                Inl err \<Rightarrow> (Inl err, h1)
              | Inr resp \<Rightarrow>
                  (case CheckError resp StatusOK of
                     Some err \<Rightarrow> (Inl err, h1)
                   | None \<Rightarrow> (ioutil_ReadAll (Body resp), h1))))"

subsection \<open>The flow selector\<close>

text \<open>
  \<^verbatim>\<open>refresh\<close> in three parts. \<open>fetchContent\<close> is the function literal that runs
  \<^verbatim>\<open>first\<close> and, on its error, \<^verbatim>\<open>second\<close>. \<open>refreshContent\<close> is the function up to
  \<^verbatim>\<open>content, err := func() ...()\<close>: it asks for the authorization materials, orders the
  two flows and fetches. \<open>installToken\<close> is the rest of the function, from
  \<^verbatim>\<open>json.Unmarshal\<close> on, which alone writes to \<^verbatim>\<open>bt\<close>.
\<close>

definition fetchContent ::
  "(event list \<Rightarrow> (error + string) \<times> event list)
     \<Rightarrow> (event list \<Rightarrow> (error + string) \<times> event list)
     \<Rightarrow> event list \<Rightarrow> (error + string) \<times> event list" where
  "fetchContent first second h =
     (case first h of
        (Inl err, h1) \<Rightarrow>
          (case second h1 of
             (Inl err2, h2) \<Rightarrow> (Inl err2, h2)
           | (Inr b, h2) \<Rightarrow> (Inr b, h2))
      | (Inr b, h1) \<Rightarrow> (Inr b, h1))"

definition refreshContent ::
  "env \<Rightarrow> bearerTransport \<Rightarrow> event list \<Rightarrow> (error + string) \<times> event list" where
  "refreshContent env bt h =
     (let h0 = h @ [RefreshEv] in
      case Authorization (basic bt) of
        Inl err \<Rightarrow> (Inl err, h0)
      | Inr auth \<Rightarrow>
          (let (first, second) =
                 (if IdentityToken auth \<noteq> []
                  then (refreshOauth env bt, refreshBasic env bt)
                  else (refreshBasic env bt, refreshOauth env bt))
           in fetchContent first second h0))"

definition installToken ::
  "env \<Rightarrow> bearerTransport \<Rightarrow> string \<Rightarrow> error option \<times> bearerTransport" where
  "installToken env bt content =
     (case json_Unmarshal env content of
        Inl err \<Rightarrow> (Some err, bt)
      | Inr response0 \<Rightarrow>
          (let response = (if AccessToken response0 \<noteq> []
                           then response0\<lparr>Token := AccessToken response0\<rparr>
                           else response0)
           in if Token response \<noteq> []
              then (let bearer1 = \<lparr>Bearer_Token = Token response\<rparr>;
                        bt1 = (if RefreshToken response \<noteq> []
                               then bt\<lparr>basic := FromConfig
                                      \<lparr>Username = [], Password = [],
                                       IdentityToken = RefreshToken response,
                                       RegistryToken = []\<rparr>\<rparr>
                               else bt)
                    in (None, bt1\<lparr>bearer := Some bearer1\<rparr>))
              else (Some (Errorf (''no token in bearer response:'' @ [CHR 0x0A] @ content)), bt)))"

definition refresh ::
  "env \<Rightarrow> bearerTransport \<Rightarrow> event list \<Rightarrow> error option \<times> bearerTransport \<times> event list" where
  "refresh env bt h =
     (case refreshContent env bt h of
        (Inl err, h1) \<Rightarrow> (Some err, bt, h1)
      | (Inr content, h1) \<Rightarrow>
          (case installToken env bt content of (err, bt1) \<Rightarrow> (err, bt1, h1)))"

subsection \<open>RoundTrip\<close>

text \<open>
  The result, the transport after the call (\<^verbatim>\<open>refresh\<close> may have replaced its
  credentials), the caller's request after the call, and the events.
\<close>

definition RoundTrip ::
  "env \<Rightarrow> bearerTransport \<Rightarrow> request \<Rightarrow> event list
     \<Rightarrow> (error + response) \<times> bearerTransport \<times> request \<times> event list" where
  "RoundTrip env bt req h =
     (case sendRequest env bt req h of
        (Inl err, req1, h1) \<Rightarrow> (Inl err, bt, req1, h1)
      | (Inr res, req1, h1) \<Rightarrow>
          if StatusCode res = StatusUnauthorized
          then (case refresh env bt h1 of
                  (Some err, bt2, h2) \<Rightarrow> (Inl err, bt2, req1, h2)
                | (None, bt2, h2) \<Rightarrow>
                    (case sendRequest env bt2 req1 h2 of
                       (r, req2, h3) \<Rightarrow> (r, bt2, req2, h3)))
          else (Inr res, bt, req1, h1))"

subsection \<open>Reading the events\<close>

text \<open>
  The requests handed to the wrapped transport, the number of entries into
  \<^verbatim>\<open>refresh\<close>, and the token flows entered, each in the order of the events.
\<close>

fun roundTrips :: "event list \<Rightarrow> request list" where
  "roundTrips [] = []"
| "roundTrips (RoundTripEv r # es) = r # roundTrips es"
| "roundTrips (e # es) = roundTrips es"

fun refreshes :: "event list \<Rightarrow> nat" where
  "refreshes [] = 0"
| "refreshes (RefreshEv # es) = Suc (refreshes es)"
| "refreshes (e # es) = refreshes es"

fun flows :: "event list \<Rightarrow> flow list" where
  "flows [] = []"
| "flows (FlowEv f # es) = f # flows es"
| "flows (e # es) = flows es"

definition runFlow ::
  "env \<Rightarrow> bearerTransport \<Rightarrow> flow \<Rightarrow> event list \<Rightarrow> (error + string) \<times> event list" where
  "runFlow env bt f = (case f of Oauth \<Rightarrow> refreshOauth env bt | Basic \<Rightarrow> refreshBasic env bt)"

text \<open>
  Two classes of host strings. A bare hostname has no colon and no bracket. A bracketed
  name is a bare hostname between \<^verbatim>\<open>[\<close> and \<^verbatim>\<open>]\<close>, with no port after it.
\<close>

definition bareHostname :: "string \<Rightarrow> bool" where
  "bareHostname h = (CHR '':'' \<notin> set h \<and> CHR ''['' \<notin> set h \<and> CHR '']'' \<notin> set h)"

definition bracketedName :: "string \<Rightarrow> bool" where
  "bracketedName s =
     (case s of
        [] \<Rightarrow> False
      | c # t \<Rightarrow> c = CHR ''['' \<and> t \<noteq> [] \<and> last t = CHR '']'' \<and> bareHostname (butlast t))"


subsection \<open>Example values\<close>

text \<open>
  A registry at \<^verbatim>\<open>registry.example.com\<close> whose token service is at
  \<^verbatim>\<open>https://auth.example.com/token\<close>. In \<open>exampleEnv\<close> the registry answers the first
  request with 401 and every later one with 200, and the token service answers both flows
  with 200; in \<open>failingEnv\<close> the POST of the OAuth2 flow fails in the transport and the GET
  of the basic flow is answered with 403; in \<open>rejectingEnv\<close> the POST is answered with 404;
  in \<open>emptyObjectEnv\<close> the GET is answered with the body \<^verbatim>\<open>{}\<close>. The JSON decoder knows
  three bodies. \<open>redirectedRequest\<close> goes to another host than the registry.
  \<open>queryTransport\<close> has a realm that carries a query string of its own,
  \<^verbatim>\<open>https://auth.example.com/token?account=42\<close>, which \<open>queryEnv\<close> parses to \<open>queryURL\<close>.
\<close>

definition exampleURL :: url where
  "exampleURL = \<lparr>URL_Scheme = ''https'', URL_Host = ''auth.example.com'',
                  URL_Path = ''/token'', URL_RawQuery = []\<rparr>"

definition exampleEnv :: env where
  "exampleEnv =
     \<lparr>inner_RoundTrip = (\<lambda>h r. if roundTrips h = []
                                then Inr \<lparr>StatusCode = 401, Body = Bytes []\<rparr>
                                else Inr \<lparr>StatusCode = 200, Body = Bytes ''ok''\<rparr>),
      client_PostForm = (\<lambda>h u v. Inr \<lparr>StatusCode = 200, Body = Bytes ''rotating''\<rparr>),
      client_Get = (\<lambda>h b u. Inr \<lparr>StatusCode = 200, Body = Bytes ''plain''\<rparr>),
      url_Parse = (\<lambda>s. if s = ''https://auth.example.com/token'' then Inr exampleURL
                          else Inl (ExternalError ''parse'')),
      url_String = (\<lambda>u. URL_Scheme u @ ''://'' @ URL_Host u @ URL_Path u
                          @ (if URL_RawQuery u = [] then [] else ''?'' @ URL_RawQuery u)),
      Values_Encode = (\<lambda>v. ''scope=repository:foo:pull&service=registry.example.com''),
      json_Unmarshal =
        (\<lambda>s. if s = ''plain'' then Inr \<lparr>Token = ''xyz'', AccessToken = [], RefreshToken = []\<rparr>
              else if s = ''rotating''
              then Inr \<lparr>Token = ''B'', AccessToken = ''A'', RefreshToken = ''R''\<rparr>
              else if s = ''{}'' then Inr \<lparr>Token = [], AccessToken = [], RefreshToken = []\<rparr>
              else Inl (ExternalError ''invalid character'')),
      transportName = ''go-containerregistry''\<rparr>"

definition failingEnv :: env where
  "failingEnv =
     exampleEnv\<lparr>client_PostForm := (\<lambda>h u v. Inl (ExternalError ''connection refused'')),
                client_Get := (\<lambda>h b u. Inr \<lparr>StatusCode = 403, Body = Bytes ''denied''\<rparr>)\<rparr>"

definition exampleTransport :: bearerTransport where
  "exampleTransport =
     \<lparr>basic = FromConfig \<lparr>Username = ''user'', Password = ''pass'', IdentityToken = [],
                          RegistryToken = []\<rparr>,
      bearer = Some \<lparr>Bearer_Token = ''old''\<rparr>,
      registry = ''registry.example.com'',
      realm = ''https://auth.example.com/token'',
      service = ''registry.example.com'',
      scopes = [''repository:foo:pull''],
      scheme = ''https''\<rparr>"

definition identityTransport :: bearerTransport where
  "identityTransport =
     exampleTransport\<lparr>basic := FromConfig \<lparr>Username = [], Password = [],
                                            IdentityToken = ''idtoken'', RegistryToken = []\<rparr>\<rparr>"

definition anonymousTransport :: bearerTransport where
  "anonymousTransport =
     exampleTransport\<lparr>basic := FromConfig \<lparr>Username = [], Password = [],
                                            IdentityToken = [], RegistryToken = []\<rparr>\<rparr>"

definition exampleRequest :: request where
  "exampleRequest =
     \<lparr>Method = ''GET'',
      URL = \<lparr>URL_Scheme = ''http'', URL_Host = ''registry.example.com'',
             URL_Path = ''/v2/'', URL_RawQuery = []\<rparr>,
      Host = [],
      Header = Map.empty\<rparr>"

definition redirectedRequest :: request where
  "redirectedRequest =
     \<lparr>Method = ''GET'',
      URL = \<lparr>URL_Scheme = ''http'', URL_Host = ''cdn.example.net'',
             URL_Path = ''/blob'', URL_RawQuery = []\<rparr>,
      Host = [],
      Header = Map.empty\<rparr>"

definition rejectingEnv :: env where
  "rejectingEnv =
     exampleEnv\<lparr>client_PostForm :=
                  (\<lambda>h u v. Inr \<lparr>StatusCode = 404, Body = Bytes ''not found''\<rparr>)\<rparr>"

definition emptyObjectEnv :: env where
  "emptyObjectEnv =
     exampleEnv\<lparr>client_Get := (\<lambda>h b u. Inr \<lparr>StatusCode = 200, Body = Bytes ''{}''\<rparr>)\<rparr>"

definition queryURL :: url where
  "queryURL = \<lparr>URL_Scheme = ''https'', URL_Host = ''auth.example.com'',
                URL_Path = ''/token'', URL_RawQuery = ''account=42''\<rparr>"

definition queryEnv :: env where
  "queryEnv =
     exampleEnv\<lparr>url_Parse :=
                  (\<lambda>s. if s = ''https://auth.example.com/token?account=42'' then Inr queryURL
                        else Inl (ExternalError ''parse''))\<rparr>"

definition queryTransport :: bearerTransport where
  "queryTransport = identityTransport\<lparr>realm := ''https://auth.example.com/token?account=42''\<rparr>"

section \<open>Properties\<close>

subsection \<open>Indices, counts and substrings\<close>

lemma IndexByteString_None: "IndexByteString s c = None \<longleftrightarrow> c \<notin> set s"
  by (induction s) auto

lemma IndexByteString_append:
  "c \<notin> set xs \<Longrightarrow> IndexByteString (xs @ c # ys) c = Some (length xs)"
  by (induction xs) auto

lemma IndexByteString_Some:
  "IndexByteString s c = Some i \<Longrightarrow> \<exists>xs ys. s = xs @ c # ys \<and> c \<notin> set xs \<and> i = length xs"
proof (induction s arbitrary: i)
  case Nil
  then show ?case by simp
next
  case (Cons x s)
  show ?case
  proof (cases "x = c")
    case True
    with Cons.prems have "i = 0" by simp
    with True have "x # s = [] @ c # s \<and> c \<notin> set [] \<and> i = length ([] :: string)"
      by simp
    then show ?thesis by blast
  next
    case False
    with Cons.prems obtain j where j: "IndexByteString s c = Some j" "i = Suc j"
      by auto
    from Cons.IH [OF j(1)] obtain xs ys where "s = xs @ c # ys" "c \<notin> set xs" "j = length xs"
      by blast
    with False j(2) have "x # s = (x # xs) @ c # ys \<and> c \<notin> set (x # xs) \<and> i = length (x # xs)"
      by simp
    then show ?thesis by blast
  qed
qed

lemma LastIndexByteString_None: "LastIndexByteString s c = None \<longleftrightarrow> c \<notin> set s"
  by (induction s) (auto split: option.splits)

lemma LastIndexByteString_append:
  "c \<notin> set ys \<Longrightarrow> LastIndexByteString (xs @ c # ys) c = Some (length xs)"
  by (induction xs) (auto simp: LastIndexByteString_None split: option.splits)

lemma LastIndexByteString_Some:
  "LastIndexByteString s c = Some i \<Longrightarrow> \<exists>xs ys. s = xs @ c # ys \<and> c \<notin> set ys \<and> i = length xs"
proof (induction s arbitrary: i)
  case Nil
  then show ?case by simp
next
  case (Cons x s)
  show ?case
  proof (cases "LastIndexByteString s c")
    case None
    with Cons.prems have "x = c" "i = 0" by (auto split: if_splits)
    moreover from None have "c \<notin> set s" by (simp add: LastIndexByteString_None)
    ultimately have "x # s = [] @ c # s \<and> c \<notin> set s \<and> i = length ([] :: string)"
      by simp
    then show ?thesis by blast
  next
    case (Some j)
    with Cons.prems have i: "i = Suc j" by simp
    from Cons.IH [OF Some] obtain xs ys where "s = xs @ c # ys" "c \<notin> set ys" "j = length xs"
      by blast
    with i have "x # s = (x # xs) @ c # ys \<and> c \<notin> set ys \<and> i = length (x # xs)"
      by simp
    then show ?thesis by blast
  qed
qed

lemma strings_Count_zero: "strings_Count s c = 0 \<longleftrightarrow> c \<notin> set s"
  by (induction s) auto

lemma strings_Count_append: "strings_Count (xs @ ys) c = strings_Count xs c + strings_Count ys c"
  by (induction xs) auto

lemma strings_HasPrefix_append: "strings_HasPrefix (p @ ys) p"
  by (induction p) auto

lemma strings_Contains_append: "strings_Contains (xs @ p @ ys) p"
proof (induction xs)
  case Nil
  show ?case by (cases "p @ ys") (simp_all add: strings_HasPrefix_append, metis strings_HasPrefix_append)
next
  case (Cons x xs)
  then show ?case by simp
qed

lemma split_first_unique:
  "xs @ c # ys = xs' @ c # ys' \<Longrightarrow> c \<notin> set xs \<Longrightarrow> c \<notin> set xs' \<Longrightarrow> xs = xs' \<and> ys = ys'"
proof (induction xs arbitrary: xs')
  case Nil
  then show ?case by (cases xs') auto
next
  case (Cons x xs)
  then show ?case by (cases xs') auto
qed

lemma split_last_unique:
  assumes "xs @ c # ys = xs' @ c # ys'" "c \<notin> set ys" "c \<notin> set ys'"
  shows "xs = xs' \<and> ys = ys'"
proof -
  from assms(1) have "rev (xs @ c # ys) = rev (xs' @ c # ys')" by simp
  then have "rev ys @ c # rev xs = rev ys' @ c # rev xs'" by simp
  with assms(2,3) have "rev ys = rev ys' \<and> rev xs = rev xs'"
    by (intro split_first_unique) auto
  then show ?thesis by simp
qed

subsection \<open>What net.SplitHostPort accepts\<close>

lemma net_SplitHostPort_plain:
  assumes "bareHostname h" "bareHostname p"
  shows "net_SplitHostPort (h @ '':'' @ p) = Inr (h, p)"
proof -
  let ?s = "h @ CHR '':'' # p"
  from assms have last: "LastIndexByteString ?s (CHR '':'') = Some (length h)"
    by (intro LastIndexByteString_append) (simp add: bareHostname_def)
  from assms have hd: "?s ! 0 \<noteq> CHR ''[''"
    by (cases h) (auto simp: bareHostname_def)
  from assms have nocolon: "IndexByteString h (CHR '':'') = None"
    by (simp add: IndexByteString_None bareHostname_def)
  from assms have nobr: "IndexByteString ?s (CHR ''['') = None" "IndexByteString ?s (CHR '']'') = None"
    by (simp_all add: IndexByteString_None bareHostname_def)
  show ?thesis
    using last hd nocolon nobr by (simp add: net_SplitHostPort_def splitTail_def)
qed

lemma net_SplitHostPort_bracket:
  assumes "CHR ''['' \<notin> set h" "CHR '']'' \<notin> set h" "bareHostname p"
  shows "net_SplitHostPort (''['' @ h @ '']:'' @ p) = Inr (h, p)"
proof -
  let ?s = "CHR ''['' # h @ CHR '']'' # CHR '':'' # p"
  have "?s = (CHR ''['' # h @ '']'') @ CHR '':'' # p" by simp
  moreover from assms have "LastIndexByteString ((CHR ''['' # h @ '']'') @ CHR '':'' # p) (CHR '':'') = Some (length (CHR ''['' # h @ '']''))"
    by (intro LastIndexByteString_append) (simp add: bareHostname_def)
  ultimately have last: "LastIndexByteString ?s (CHR '':'') = Some (length h + 2)"
    by simp
  have "?s = (CHR ''['' # h) @ CHR '']'' # CHR '':'' # p" by simp
  moreover from assms have "IndexByteString ((CHR ''['' # h) @ CHR '']'' # CHR '':'' # p) (CHR '']'') = Some (length (CHR ''['' # h))"
    by (intro IndexByteString_append) simp
  ultimately have first: "IndexByteString ?s (CHR '']'') = Some (length h + 1)"
    by simp
  from assms have t1: "IndexByteString (h @ CHR '']'' # CHR '':'' # p) (CHR ''['') = None"
    by (simp add: IndexByteString_None bareHostname_def)
  from assms have t2: "IndexByteString (CHR '':'' # p) (CHR '']'') = None"
    by (simp add: IndexByteString_None bareHostname_def)
  show ?thesis
    using last first t1 t2 by (simp add: net_SplitHostPort_def splitTail_def)
qed


lemma bracketedNameI: "bareHostname x \<Longrightarrow> bracketedName (''['' @ x @ '']'')"
  by (simp add: bracketedName_def)

lemma net_SplitHostPort_Inr:
  assumes "net_SplitHostPort s = Inr (h, p)"
  shows "(s = h @ '':'' @ p \<and> bareHostname h \<and> bareHostname p)
       \<or> (s = ''['' @ h @ '']:'' @ p \<and> CHR ''['' \<notin> set h \<and> CHR '']'' \<notin> set h \<and> bareHostname p)"
proof -
  from assms obtain i where i: "LastIndexByteString s (CHR '':'') = Some i"
    by (auto simp: net_SplitHostPort_def split: option.splits)
  then obtain xs ys where s: "s = xs @ CHR '':'' # ys" "CHR '':'' \<notin> set ys" "i = length xs"
    using LastIndexByteString_Some by blast
  show ?thesis
  proof (cases "s ! 0 = CHR ''[''")
    case False
    with assms i have nocolon: "IndexByteString (take i s) (CHR '':'') = None"
      and tail: "splitTail s (take i s) 0 0 i = Inr (h, p)"
      by (auto simp: net_SplitHostPort_def Let_def split: if_splits)
    from tail have "CHR ''['' \<notin> set s" "CHR '']'' \<notin> set s" "h = take i s" "p = drop (i + 1) s"
      by (auto simp: splitTail_def IndexByteString_None split: if_splits)
    moreover from s have "take i s = xs" "drop (i + 1) s = ys" by simp_all
    moreover from nocolon have "CHR '':'' \<notin> set (take i s)" by (simp add: IndexByteString_None)
    ultimately have "s = h @ '':'' @ p \<and> bareHostname h \<and> bareHostname p"
      using s by (auto simp: bareHostname_def)
    then show ?thesis ..
  next
    case True
    with assms i obtain e where e: "IndexByteString s (CHR '']'') = Some e" "e + 1 = i"
      and tail: "splitTail s (take (e - 1) (drop 1 s)) 1 (e + 1) i = Inr (h, p)"
      by (auto simp: net_SplitHostPort_def split: option.splits if_splits)
    from e(1) obtain us vs where u: "s = us @ CHR '']'' # vs" "CHR '']'' \<notin> set us" "e = length us"
      using IndexByteString_Some by blast
    from True u obtain us' where us': "us = CHR ''['' # us'"
      by (cases us) auto
    from s(3) e(2) u(3) have len: "length xs = length us + 1" by simp
    from u(1) have "take (length us + 1) s = us @ [CHR '']'']" by simp
    moreover from s(1) len have "take (length us + 1) s = xs" by simp
    ultimately have xs: "xs = us @ [CHR '']'']" by simp
    with s(1) us' have shape: "s = CHR ''['' # us' @ CHR '']'' # CHR '':'' # ys" by simp
    from tail have t: "CHR ''['' \<notin> set (drop 1 s)" "CHR '']'' \<notin> set (drop (e + 1) s)"
      "h = take (e - 1) (drop 1 s)" "p = drop (i + 1) s"
      by (auto simp: splitTail_def IndexByteString_None split: if_splits)
    from shape u(3) us' have "take (e - 1) (drop 1 s) = us'" by simp
    with t(3) have h: "h = us'" by simp
    from shape s(3) xs us' have "drop (i + 1) s = ys" by simp
    with t(4) have p: "p = ys" by simp
    from shape u(3) us' have "drop (e + 1) s = CHR '':'' # ys" by simp
    with t(2) have "CHR '']'' \<notin> set ys" by simp
    moreover from shape t(1) have "CHR ''['' \<notin> set us'" "CHR ''['' \<notin> set ys" by simp_all
    moreover from u(2) us' have "CHR '']'' \<notin> set us'" by simp
    ultimately have "s = ''['' @ h @ '']:'' @ p \<and> CHR ''['' \<notin> set h \<and> CHR '']'' \<notin> set h \<and> bareHostname p"
      using shape h p s(2) by (simp add: bareHostname_def)
    then show ?thesis ..
  qed
qed

subsection \<open>Fixed points of canonicalAddress\<close>

lemma portMap_get_bare: "bareHostname (portMap_get key)"
  by (simp add: portMap_get_def portMap_def bareHostname_def)

lemma net_JoinHostPort_plain: "CHR '':'' \<notin> set h \<Longrightarrow> net_JoinHostPort h q = h @ '':'' @ q"
  by (simp add: net_JoinHostPort_def IndexByteString_None)

lemma net_JoinHostPort_bracket: "CHR '':'' \<in> set h \<Longrightarrow> net_JoinHostPort h q = ''['' @ h @ '']:'' @ q"
  using IndexByteString_None [of h "CHR '':''"] by (simp add: net_JoinHostPort_def)

lemma canonicalAddress_fix_plain:
  assumes "bareHostname h" "bareHostname q" "q = [] \<longrightarrow> portMap_get (scheme bt) = []"
  shows "canonicalAddress bt (h @ '':'' @ q) = h @ '':'' @ q"
proof -
  from assms have "strings_Count (h @ '':'' @ q) (CHR '':'') = 1"
    using strings_Count_zero [of h "CHR '':''"] strings_Count_zero [of q "CHR '':''"]
    by (simp add: strings_Count_append bareHostname_def)
  moreover from assms(1,2) have "net_SplitHostPort (h @ '':'' @ q) = Inr (h, q)"
    by (rule net_SplitHostPort_plain)
  moreover from assms have "net_JoinHostPort h q = h @ '':'' @ q"
    by (simp add: net_JoinHostPort_plain bareHostname_def)
  ultimately show ?thesis
    using assms(3) by (auto simp: canonicalAddress_def)
qed

lemma canonicalAddress_fix_bracket:
  assumes "CHR ''['' \<notin> set h" "CHR '']'' \<notin> set h" "CHR '':'' \<in> set h"
    "bareHostname q" "q = [] \<longrightarrow> portMap_get (scheme bt) = []"
  shows "canonicalAddress bt (''['' @ h @ '']:'' @ q) = ''['' @ h @ '']:'' @ q"
proof -
  from assms(3) have "strings_Count h (CHR '':'') \<noteq> 0"
    by (simp add: strings_Count_zero)
  then have "2 \<le> strings_Count (''['' @ h @ '']:'' @ q) (CHR '':'')"
    by (simp add: strings_Count_append)
  moreover have "strings_Contains ((''['' @ h) @ '']:'' @ q) '']:''"
    by (rule strings_Contains_append)
  then have "strings_Contains (''['' @ h @ '']:'' @ q) '']:''" by simp
  moreover from assms(1,2,4) have "net_SplitHostPort (''['' @ h @ '']:'' @ q) = Inr (h, q)"
    by (rule net_SplitHostPort_bracket)
  moreover from assms have "net_JoinHostPort h q = ''['' @ h @ '']:'' @ q"
    by (simp add: net_JoinHostPort_bracket)
  ultimately show ?thesis
    using assms(5) by (auto simp: canonicalAddress_def)
qed


lemma canonicalAddress_split_error:
  assumes "strings_Count r (CHR '':'') = 1
           \<or> (2 \<le> strings_Count r (CHR '':'') \<and> strings_Contains r '']:'')"
    and "net_SplitHostPort r = Inl e"
  shows "canonicalAddress bt r = r"
  using assms by (auto simp: canonicalAddress_def)

lemma canonicalAddress_split_ok:
  assumes "strings_Count r (CHR '':'') = 1
           \<or> (2 \<le> strings_Count r (CHR '':'') \<and> strings_Contains r '']:'')"
    and "net_SplitHostPort r = Inr (h, p)"
  shows "canonicalAddress bt r =
           net_JoinHostPort h (if p = [] then portMap_get (scheme bt) else p)"
  using assms by (auto simp: canonicalAddress_def)

lemma canonicalAddress_idem_split:
  assumes branch: "strings_Count host (CHR '':'') = 1
           \<or> (2 \<le> strings_Count host (CHR '':'') \<and> strings_Contains host '']:'')"
  shows "canonicalAddress bt (canonicalAddress bt host) = canonicalAddress bt host"
proof (cases "net_SplitHostPort host")
  case (Inl e)
  with branch have "canonicalAddress bt host = host"
    by (rule canonicalAddress_split_error)
  then show ?thesis by simp
next
  case (Inr hp)
  obtain h p where hp: "hp = (h, p)" by (cases hp)
  define q where "q = (if p = [] then portMap_get (scheme bt) else p)"
  from Inr hp have split: "net_SplitHostPort host = Inr (h, p)" by simp
  from canonicalAddress_split_ok [OF branch split, of bt]
  have c: "canonicalAddress bt host = net_JoinHostPort h q" by (simp add: q_def)
  from net_SplitHostPort_Inr [OF split]
  have bp: "bareHostname p" and hb: "CHR ''['' \<notin> set h" "CHR '']'' \<notin> set h"
    by (auto simp: bareHostname_def)
  from bp have q: "bareHostname q" by (simp add: q_def portMap_get_bare)
  have q0: "q = [] \<longrightarrow> portMap_get (scheme bt) = []" by (simp add: q_def)
  show ?thesis
  proof (cases "CHR '':'' \<in> set h")
    case True
    then have "net_JoinHostPort h q = ''['' @ h @ '']:'' @ q"
      by (rule net_JoinHostPort_bracket)
    moreover from hb True q q0
    have "canonicalAddress bt (''['' @ h @ '']:'' @ q) = ''['' @ h @ '']:'' @ q"
      by (rule canonicalAddress_fix_bracket)
    ultimately show ?thesis using c by simp
  next
    case False
    then have "net_JoinHostPort h q = h @ '':'' @ q"
      by (rule net_JoinHostPort_plain)
    moreover from False hb have "bareHostname h" by (simp add: bareHostname_def)
    then have "canonicalAddress bt (h @ '':'' @ q) = h @ '':'' @ q"
      using q q0 by (rule canonicalAddress_fix_plain)
    ultimately show ?thesis using c by simp
  qed
qed

lemma canonicalAddress_idem_nocolon:
  assumes nocolon: "CHR '':'' \<notin> set host" and nb: "\<not> bracketedName host"
  shows "canonicalAddress bt (canonicalAddress bt host) = canonicalAddress bt host"
proof -
  define d where "d = portMap_get (scheme bt)"
  define r where "r = host @ '':'' @ d"
  have d: "bareHostname d" by (simp add: d_def portMap_get_bare)
  from nocolon have cnt0: "strings_Count host (CHR '':'') = 0"
    by (simp add: strings_Count_zero)
  from d have cntd: "strings_Count d (CHR '':'') = 0"
    by (simp add: strings_Count_zero bareHostname_def)
  from nocolon have join: "net_JoinHostPort host d = r"
    unfolding r_def by (rule net_JoinHostPort_plain)
  from cnt0 have c: "canonicalAddress bt host = r"
    using join by (auto simp: canonicalAddress_def d_def)
  from cnt0 cntd have cnt: "strings_Count r (CHR '':'') = 1"
    by (simp add: r_def strings_Count_append)
  then have branch: "strings_Count r (CHR '':'') = 1
           \<or> (2 \<le> strings_Count r (CHR '':'') \<and> strings_Contains r '']:'')" ..
  have "canonicalAddress bt r = r"
  proof (cases "net_SplitHostPort r")
    case (Inl e)
    with branch show ?thesis by (rule canonicalAddress_split_error)
  next
    case (Inr hp)
    obtain h' p' where hp: "hp = (h', p')" by (cases hp)
    from Inr hp have split: "net_SplitHostPort r = Inr (h', p')" by simp
    from net_SplitHostPort_Inr [OF split] show ?thesis
    proof
      assume a: "r = h' @ '':'' @ p' \<and> bareHostname h' \<and> bareHostname p'"
      then have "host @ CHR '':'' # d = h' @ CHR '':'' # p'" by (simp add: r_def)
      moreover from a have "CHR '':'' \<notin> set h'" by (simp add: bareHostname_def)
      ultimately have "host = h' \<and> d = p'"
        using nocolon by (intro split_first_unique)
      with canonicalAddress_split_ok [OF branch split, of bt] join show ?thesis
        by (auto simp: d_def)
    next
      assume a: "r = ''['' @ h' @ '']:'' @ p' \<and> CHR ''['' \<notin> set h' \<and> CHR '']'' \<notin> set h'
                 \<and> bareHostname p'"
      then have "host @ CHR '':'' # d = (''['' @ h' @ '']'') @ CHR '':'' # p'"
        by (simp add: r_def)
      moreover from a have "CHR '':'' \<notin> set p'" by (simp add: bareHostname_def)
      moreover from d have "CHR '':'' \<notin> set d" by (simp add: bareHostname_def)
      ultimately have "host = ''['' @ h' @ '']'' \<and> d = p'"
        by (intro split_last_unique)
      then have host: "host = ''['' @ h' @ '']''" ..
      with nocolon a have "bareHostname h'" by (simp add: bareHostname_def)
      then have "bracketedName (''['' @ h' @ '']'')" by (rule bracketedNameI)
      with host nb show ?thesis by simp
    qed
  qed
  with c show ?thesis by simp
qed

lemma canonicalAddress_idem_ipv6:
  assumes colon: "CHR '':'' \<in> set host"
    and nobranch: "\<not> (strings_Count host (CHR '':'') = 1
           \<or> (2 \<le> strings_Count host (CHR '':'') \<and> strings_Contains host '']:''))"
  shows "canonicalAddress bt (canonicalAddress bt host) = canonicalAddress bt host"
proof -
  define d where "d = portMap_get (scheme bt)"
  define r where "r = ''['' @ host @ '']:'' @ d"
  have d: "bareHostname d" by (simp add: d_def portMap_get_bare)
  from colon have join: "net_JoinHostPort host d = r"
    unfolding r_def by (rule net_JoinHostPort_bracket)
  from nobranch have c: "canonicalAddress bt host = r"
    using join by (auto simp: canonicalAddress_def d_def)
  from colon have "strings_Count host (CHR '':'') \<noteq> 0"
    by (simp add: strings_Count_zero)
  then have "2 \<le> strings_Count r (CHR '':'')"
    by (simp add: r_def strings_Count_append)
  moreover have "strings_Contains ((''['' @ host) @ '']:'' @ d) '']:''"
    by (rule strings_Contains_append)
  then have "strings_Contains r '']:''" by (simp add: r_def)
  ultimately have branch: "strings_Count r (CHR '':'') = 1
           \<or> (2 \<le> strings_Count r (CHR '':'') \<and> strings_Contains r '']:'')" by simp
  have "canonicalAddress bt r = r"
  proof (cases "net_SplitHostPort r")
    case (Inl e)
    with branch show ?thesis by (rule canonicalAddress_split_error)
  next
    case (Inr hp)
    obtain h' p' where hp: "hp = (h', p')" by (cases hp)
    from Inr hp have split: "net_SplitHostPort r = Inr (h', p')" by simp
    from net_SplitHostPort_Inr [OF split] show ?thesis
    proof
      assume a: "r = h' @ '':'' @ p' \<and> bareHostname h' \<and> bareHostname p'"
      then have "CHR ''['' # host @ '']:'' @ d = h' @ CHR '':'' # p'" by (simp add: r_def)
      with a show ?thesis by (cases h') (auto simp: bareHostname_def)
    next
      assume a: "r = ''['' @ h' @ '']:'' @ p' \<and> CHR ''['' \<notin> set h' \<and> CHR '']'' \<notin> set h'
                 \<and> bareHostname p'"
      then have "(''['' @ host @ '']'') @ CHR '':'' # d = (''['' @ h' @ '']'') @ CHR '':'' # p'"
        by (simp add: r_def)
      moreover from a have "CHR '':'' \<notin> set p'" by (simp add: bareHostname_def)
      moreover from d have "CHR '':'' \<notin> set d" by (simp add: bareHostname_def)
      ultimately have "''['' @ host @ '']'' = ''['' @ h' @ '']'' \<and> d = p'"
        by (intro split_last_unique)
      then have "host = h' \<and> d = p'" by simp
      with canonicalAddress_split_ok [OF branch split, of bt] join show ?thesis
        by (auto simp: d_def)
    qed
  qed
  with c show ?thesis by simp
qed

lemma canonicalAddress_idem:
  assumes "\<not> bracketedName host"
  shows "canonicalAddress bt (canonicalAddress bt host) = canonicalAddress bt host"
proof (cases "strings_Count host (CHR '':'') = 1
           \<or> (2 \<le> strings_Count host (CHR '':'') \<and> strings_Contains host '']:'')")
  case True
  then show ?thesis by (rule canonicalAddress_idem_split)
next
  case False
  show ?thesis
  proof (cases "CHR '':'' \<in> set host")
    case True
    then show ?thesis using False by (rule canonicalAddress_idem_ipv6)
  next
    case False
    then show ?thesis using assms by (rule canonicalAddress_idem_nocolon)
  qed
qed

lemma canonicalAddress_default_port:
  assumes "bareHostname h"
  shows "canonicalAddress bt (h @ '':'' @ portMap_get (scheme bt)) = canonicalAddress bt h"
proof -
  from assms have "CHR '':'' \<notin> set h" by (simp add: bareHostname_def)
  then have "strings_Count h (CHR '':'') = 0" "net_JoinHostPort h (portMap_get (scheme bt)) = h @ '':'' @ portMap_get (scheme bt)"
    by (simp_all add: strings_Count_zero net_JoinHostPort_plain)
  then have "canonicalAddress bt h = h @ '':'' @ portMap_get (scheme bt)"
    by (simp add: canonicalAddress_def)
  moreover from assms portMap_get_bare
  have "canonicalAddress bt (h @ '':'' @ portMap_get (scheme bt)) = h @ '':'' @ portMap_get (scheme bt)"
    by (rule canonicalAddress_fix_plain) simp
  ultimately show ?thesis by simp
qed

lemma bracketedNameD:
  assumes "bracketedName host"
  shows "\<exists>x. host = ''['' @ x @ '']'' \<and> bareHostname x"
proof (cases host)
  case Nil
  with assms show ?thesis by (simp add: bracketedName_def)
next
  case (Cons c t)
  with assms have t: "c = CHR ''[''" "t \<noteq> []" "last t = CHR '']''" "bareHostname (butlast t)"
    by (simp_all add: bracketedName_def)
  from t(2) have "t = butlast t @ [last t]" by simp
  with t(3) have "t = butlast t @ '']''" by simp
  with Cons t(1) have "host = ''['' @ butlast t @ '']''" by simp
  with t(4) show ?thesis by blast
qed

lemma canonicalAddress_bracketedName:
  assumes "bracketedName host"
  shows "canonicalAddress bt (canonicalAddress bt host) \<noteq> canonicalAddress bt host"
proof -
  from bracketedNameD [OF assms] obtain x where x: "host = ''['' @ x @ '']''" "bareHostname x"
    by blast
  define d where "d = portMap_get (scheme bt)"
  define r where "r = ''['' @ x @ '']:'' @ d"
  have d: "bareHostname d" by (simp add: d_def portMap_get_bare)
  from x have nocolon: "CHR '':'' \<notin> set host" by (simp add: bareHostname_def)
  then have "strings_Count host (CHR '':'') = 0" "net_JoinHostPort host d = host @ '':'' @ d"
    by (simp_all add: strings_Count_zero net_JoinHostPort_plain)
  then have "canonicalAddress bt host = host @ '':'' @ d"
    by (simp add: canonicalAddress_def d_def)
  with x(1) have c: "canonicalAddress bt host = r" by (simp add: r_def)
  from x(2) d have "strings_Count r (CHR '':'') = 1"
    using strings_Count_zero [of x "CHR '':''"] strings_Count_zero [of d "CHR '':''"]
    by (simp add: r_def strings_Count_append bareHostname_def)
  then have branch: "strings_Count r (CHR '':'') = 1
           \<or> (2 \<le> strings_Count r (CHR '':'') \<and> strings_Contains r '']:'')" ..
  from x(2) d have split: "net_SplitHostPort r = Inr (x, d)"
    unfolding r_def by (intro net_SplitHostPort_bracket) (simp_all add: bareHostname_def)
  from x(2) have "net_JoinHostPort x d = x @ '':'' @ d"
    by (simp add: net_JoinHostPort_plain bareHostname_def)
  with canonicalAddress_split_ok [OF branch split, of bt]
  have "canonicalAddress bt r = x @ '':'' @ d" by (auto simp: d_def)
  moreover have "length (x @ '':'' @ d) \<noteq> length r" by (simp add: r_def)
  then have "x @ '':'' @ d \<noteq> r" by auto
  ultimately show ?thesis using c by simp
qed

subsection \<open>C6: canonicalAddress is idempotent except on bracketed names\<close>

text \<open>
  Claim C6, as amended. Canonicalising a canonical form gives the same string for every
  host string but a bracketed name, a bare hostname between \<^verbatim>\<open>[\<close> and \<^verbatim>\<open>]\<close> with no
  port: there the first pass appends the default port and the second pass, which now finds
  a port, drops the brackets. For every bare hostname \<open>h\<close> and every scheme, \<open>h\<close> and \<open>h\<close>
  followed by a colon and the default port of the scheme canonicalise to the same string;
  the default port is 80 for http and 443 for https.
\<close>

theorem canonicalAddress_idempotent_iff:
  "(canonicalAddress bt (canonicalAddress bt host) = canonicalAddress bt host
      \<longleftrightarrow> \<not> bracketedName host)
   \<and> (bareHostname h \<longrightarrow>
        canonicalAddress bt h = canonicalAddress bt (h @ '':'' @ portMap_get (scheme bt)))
   \<and> portMap_get ''http'' = ''80'' \<and> portMap_get ''https'' = ''443''"
proof (intro conjI impI)
  show "canonicalAddress bt (canonicalAddress bt host) = canonicalAddress bt host
      \<longleftrightarrow> \<not> bracketedName host"
    using canonicalAddress_idem [of host bt] canonicalAddress_bracketedName [of host bt]
    by blast
next
  assume "bareHostname h"
  then show "canonicalAddress bt h = canonicalAddress bt (h @ '':'' @ portMap_get (scheme bt))"
    by (simp only: canonicalAddress_default_port)
next
  show "portMap_get ''http'' = ''80''" by (simp add: portMap_get_def portMap_def)
next
  show "portMap_get ''https'' = ''443''" by (simp add: portMap_get_def portMap_def)
qed

theorem canonicalAddress_idempotent_iff_witness:
  "\<not> bracketedName ''registry.example.com''
   \<and> canonicalAddress exampleTransport (canonicalAddress exampleTransport ''registry.example.com'')
       = canonicalAddress exampleTransport ''registry.example.com''
   \<and> bareHostname ''registry.example.com''
   \<and> canonicalAddress exampleTransport ''registry.example.com''
       = canonicalAddress exampleTransport
           (''registry.example.com'' @ '':'' @ portMap_get (scheme exampleTransport))
   \<and> portMap_get (scheme exampleTransport) = ''443''"
proof -
  have nb: "\<not> bracketedName ''registry.example.com''"
    by (simp add: bracketedName_def)
  have bh: "bareHostname ''registry.example.com''"
    by (simp add: bareHostname_def)
  have port: "portMap_get (scheme exampleTransport) = ''443''"
    by (simp add: exampleTransport_def portMap_get_def portMap_def)
  from canonicalAddress_idempotent_iff
    [of exampleTransport "''registry.example.com''" "''registry.example.com''"]
  show ?thesis using nb bh port by blast
qed

text \<open>
  The claim as stated fails at the host string \<^verbatim>\<open>[abc]\<close>: its canonical form is
  \<^verbatim>\<open>[abc]:443\<close>, whose canonical form is \<^verbatim>\<open>abc:443\<close>.
\<close>

theorem canonicalAddress_not_idempotent:
  "canonicalAddress exampleTransport (canonicalAddress exampleTransport ''[abc]'')
     \<noteq> canonicalAddress exampleTransport ''[abc]''"
  by (simp add: canonicalAddress_def exampleTransport_def net_SplitHostPort_def
      net_JoinHostPort_def portMap_get_def portMap_def splitTail_def)

subsection \<open>Events of the token flows and of refresh\<close>

text \<open>
  Neither token flow hands a request to the wrapped transport or enters \<^verbatim>\<open>refresh\<close>; each
  records its own entry once. \<^verbatim>\<open>refresh\<close> records one entry and writes to the transport
  only when it succeeds.
\<close>

lemma roundTrips_append: "roundTrips (xs @ ys) = roundTrips xs @ roundTrips ys"
  by (induction xs rule: roundTrips.induct) simp_all

lemma refreshes_append: "refreshes (xs @ ys) = refreshes xs + refreshes ys"
  by (induction xs rule: refreshes.induct) simp_all

lemma flows_append: "flows (xs @ ys) = flows xs @ flows ys"
  by (induction xs rule: flows.induct) simp_all

lemma refreshOauth_events:
  assumes "refreshOauth env bt h = (r, h')"
  shows "roundTrips h' = roundTrips h \<and> refreshes h' = refreshes h \<and> flows h' = flows h @ [Oauth]"
  using assms
  by (auto simp: refreshOauth_def Let_def roundTrips_append refreshes_append flows_append
      split: sum.splits option.splits)

lemma refreshBasic_events:
  assumes "refreshBasic env bt h = (r, h')"
  shows "roundTrips h' = roundTrips h \<and> refreshes h' = refreshes h \<and> flows h' = flows h @ [Basic]"
  using assms
  by (auto simp: refreshBasic_def Let_def roundTrips_append refreshes_append flows_append
      split: sum.splits option.splits)

lemma fetchContent_cases:
  "fetchContent first second h =
     (case first h of
        (Inr b, h1) \<Rightarrow> (Inr b, h1)
      | (Inl err, h1) \<Rightarrow> second h1)"
  by (auto simp: fetchContent_def split: prod.splits sum.splits)

lemma refreshContent_events:
  assumes "refreshContent env bt h = (r, h')"
  shows "roundTrips h' = roundTrips h \<and> refreshes h' = refreshes h + 1"
proof (cases "Authorization (basic bt)")
  case (Inl err)
  with assms show ?thesis
    by (auto simp: refreshContent_def Let_def roundTrips_append refreshes_append)
next
  case (Inr a)
  obtain r1 h1 where o: "refreshOauth env bt (h @ [RefreshEv]) = (r1, h1)" by force
  obtain r2 h2 where b: "refreshBasic env bt (h @ [RefreshEv]) = (r2, h2)" by force
  obtain r3 h3 where ob: "refreshBasic env bt h1 = (r3, h3)" by force
  obtain r4 h4 where bo: "refreshOauth env bt h2 = (r4, h4)" by force
  from refreshOauth_events [OF o] refreshBasic_events [OF b]
    refreshBasic_events [OF ob] refreshOauth_events [OF bo]
  show ?thesis
    using assms Inr o b ob bo
    by (auto simp: refreshContent_def fetchContent_cases Let_def roundTrips_append
        refreshes_append split: sum.splits if_splits)
qed

lemma installToken_error: "installToken env bt content = (Some err, bt') \<Longrightarrow> bt' = bt"
  by (auto simp: installToken_def Let_def split: sum.splits if_splits)

lemma installToken_success:
  "installToken env bt content = (None, bt') \<Longrightarrow> \<exists>b. bearer bt' = Some b"
  by (auto simp: installToken_def Let_def split: sum.splits if_splits)

lemma installToken_preserves:
  "installToken env bt content = (e, bt') \<Longrightarrow>
     scheme bt' = scheme bt \<and> registry bt' = registry bt \<and> realm bt' = realm bt"
  by (auto simp: installToken_def Let_def split: sum.splits if_splits)

lemma refresh_events:
  assumes "refresh env bt h = (r, bt', h')"
  shows "roundTrips h' = roundTrips h \<and> refreshes h' = refreshes h + 1"
proof -
  obtain c h1 where c: "refreshContent env bt h = (c, h1)" by force
  with assms have "h' = h1"
    by (auto simp: refresh_def split: sum.splits prod.splits)
  with refreshContent_events [OF c] show ?thesis by simp
qed

lemma refresh_error: "refresh env bt h = (Some err, bt', h') \<Longrightarrow> bt' = bt"
  by (auto simp: refresh_def split: sum.splits prod.splits dest: installToken_error)

lemma refresh_success: "refresh env bt h = (None, bt', h') \<Longrightarrow> \<exists>b. bearer bt' = Some b"
  by (auto simp: refresh_def split: sum.splits prod.splits dest: installToken_success)

lemma refresh_preserves:
  "refresh env bt h = (e, bt', h') \<Longrightarrow>
     scheme bt' = scheme bt \<and> registry bt' = registry bt \<and> realm bt' = realm bt"
  by (auto simp: refresh_def split: sum.splits prod.splits dest: installToken_preserves)

lemma refresh_content_error:
  "refreshContent env bt h = (Inl err, h1) \<Longrightarrow> refresh env bt h = (Some err, bt, h1)"
  by (simp add: refresh_def)

lemma refresh_content_ok:
  "refreshContent env bt h = (Inr content, h1) \<Longrightarrow>
     refresh env bt h = (case installToken env bt content of (err, bt1) \<Rightarrow> (err, bt1, h1))"
  by (simp add: refresh_def)

lemma refreshContent_flows:
  assumes "Authorization (basic bt) = Inr auth"
  shows "refreshContent env bt h =
     (case runFlow env bt (if IdentityToken auth \<noteq> [] then Oauth else Basic) (h @ [RefreshEv]) of
        (Inr b, h1) \<Rightarrow> (Inr b, h1)
      | (Inl e1, h1) \<Rightarrow>
          runFlow env bt (if IdentityToken auth \<noteq> [] then Basic else Oauth) h1)"
  using assms
  by (auto simp: refreshContent_def fetchContent_cases runFlow_def Let_def
      split: prod.splits sum.splits)

lemma runFlow_events:
  assumes "runFlow env bt f h = (r, h')"
  shows "flows h' = flows h @ [f]"
  using assms refreshOauth_events [of env bt h r h'] refreshBasic_events [of env bt h r h']
  by (cases f) (simp_all add: runFlow_def)

lemma runFlow_unparsed:
  assumes "url_Parse env (realm bt) = Inl e"
  shows "\<exists>e' k'. runFlow env bt f k = (Inl e', k')"
  using assms
  by (cases f) (auto simp: runFlow_def refreshOauth_def refreshBasic_def Let_def split: sum.splits)

lemma refreshContent_Inr_parses:
  assumes "refreshContent env bt h = (Inr content, h1)"
  shows "\<exists>u. url_Parse env (realm bt) = Inr u"
proof (cases "url_Parse env (realm bt)")
  case (Inr u)
  then show ?thesis by blast
next
  case (Inl e)
  show ?thesis
  proof (cases "Authorization (basic bt)")
    case inl: (Inl e0)
    with assms show ?thesis by (simp add: refreshContent_def Let_def)
  next
    case (Inr a)
    from runFlow_unparsed [OF Inl] obtain e1 k1 where
      f: "runFlow env bt (if IdentityToken a \<noteq> [] then Oauth else Basic) (h @ [RefreshEv])
            = (Inl e1, k1)"
      by blast
    from runFlow_unparsed [OF Inl] obtain e2 k2 where
      s: "runFlow env bt (if IdentityToken a \<noteq> [] then Basic else Oauth) k1 = (Inl e2, k2)"
      by blast
    from refreshContent_flows [OF Inr, of env h] f s
    have "refreshContent env bt h = (Inl e2, k2)" by simp
    with assms show ?thesis by simp
  qed
qed

lemma refreshBasic_extends: "\<exists>rest. snd (refreshBasic env bt h) = h @ rest"
  by (auto simp: refreshBasic_def Let_def split: sum.splits option.splits)

lemma refresh_events_eq: "snd (snd (refresh env bt h)) = snd (refreshContent env bt h)"
  by (auto simp: refresh_def split: prod.splits sum.splits)

lemma refreshOauth_result:
  assumes "Authorization (basic bt) = Inr auth" and "url_Parse env (realm bt) = Inr u"
  shows "refreshOauth env bt h =
     (case client_PostForm env (h @ [FlowEv Oauth]) (url_String env u) (oauthForm env bt auth) of
        Inl err \<Rightarrow> Inl err
      | Inr resp \<Rightarrow>
          if StatusCode resp = 200 then ioutil_ReadAll (Body resp)
          else Inl (StatusError (StatusCode resp) (Body resp)),
      h @ [FlowEv Oauth, PostFormEv (url_String env u) (oauthForm env bt auth)])"
  using assms
  by (simp add: refreshOauth_def CheckError_def StatusOK_def Let_def split: sum.splits)

lemma refresh_presents_identity_token:
  assumes "Authorization (basic bt) = Inr a" and "IdentityToken a \<noteq> []"
    and "url_Parse env (realm bt) = Inr u"
  shows "\<exists>rest. snd (snd (refresh env bt h))
           = h @ [RefreshEv, FlowEv Oauth, PostFormEv (url_String env u) (oauthForm env bt a)] @ rest"
proof -
  let ?h1 = "h @ [RefreshEv, FlowEv Oauth, PostFormEv (url_String env u) (oauthForm env bt a)]"
  from refreshOauth_result [OF assms(1,3), of "h @ [RefreshEv]"]
  obtain r where o: "refreshOauth env bt (h @ [RefreshEv]) = (r, ?h1)" by simp
  from refreshBasic_extends [of env bt ?h1] obtain rest where
    b: "snd (refreshBasic env bt ?h1) = ?h1 @ rest" by blast
  from assms(1,2) o have "snd (refreshContent env bt h) = ?h1 \<or> snd (refreshContent env bt h) = ?h1 @ rest"
    using b by (cases r) (simp_all add: refreshContent_flows runFlow_def)
  then have "\<exists>rest. snd (refreshContent env bt h) = ?h1 @ rest"
    by (metis append_Nil2)
  then show ?thesis by (simp add: refresh_events_eq)
qed

lemma oauthForm_no_grant:
  assumes "IdentityToken auth = []" and "Username auth = [] \<or> Password auth = []"
  shows "oauthForm env bt auth =
           [''scope'' \<mapsto> [strings_Join (scopes bt) '' ''], ''service'' \<mapsto> [service bt],
            ''client_id'' \<mapsto> [transportName env]]"
  using assms by (auto simp: oauthForm_def Values_Set_def Let_def)

subsection \<open>One send of the dispatcher\<close>

lemma sendRequest_bearer:
  assumes "bearer bt = Some b"
  shows "\<exists>req'. sendRequest env bt req h = (inner_RoundTrip env h req', req', h @ [RoundTripEv req'])
          \<and> Host req' = Host req \<and> URL_Host (URL req') = URL_Host (URL req)"
  using assms by (simp add: sendRequest_def Bearer_Authorization_def Let_def)

lemma sendRequest_Inr:
  assumes "sendRequest env bt req h = (Inr res, req1, h1)"
  shows "h1 = h @ [RoundTripEv req1] \<and> Inr res = inner_RoundTrip env h req1
         \<and> bearer bt \<noteq> None"
  using assms
  by (auto simp: sendRequest_def Bearer_Authorization_def Let_def split: option.splits)

lemma canonicalAddress_scheme:
  "scheme bt' = scheme bt \<Longrightarrow> canonicalAddress bt' host = canonicalAddress bt host"
  by (auto simp: canonicalAddress_def split: sum.splits)

lemma sendRequest_twice:
  assumes "sendRequest env bt req h = (res, req1, h1)"
    and "sendRequest env' bt' req1 h' = (res', req2, h2)"
    and "scheme bt' = scheme bt" and "registry bt' = registry bt"
    and "bearer bt \<noteq> None"
  shows "URL req2 = URL req1 \<and> Host req2 = Host req1 \<and> Method req2 = Method req1"
  using assms canonicalAddress_scheme [OF assms(3)]
  by (auto simp: sendRequest_def Bearer_Authorization_def Let_def
      split: option.splits if_splits)

subsection \<open>The examples evaluated\<close>

lemma example_bearer: "bearer exampleTransport = Some \<lparr>Bearer_Token = ''old''\<rparr>"
  by (simp add: exampleTransport_def)

lemma example_canonical_registry:
  "canonicalAddress exampleTransport (registry exampleTransport) = ''registry.example.com:443''"
  by (simp add: canonicalAddress_def exampleTransport_def net_JoinHostPort_def
      portMap_get_def portMap_def)

lemma example_canonical_cdn:
  "canonicalAddress exampleTransport ''cdn.example.net'' = ''cdn.example.net:443''"
  by (simp add: canonicalAddress_def exampleTransport_def net_JoinHostPort_def
      portMap_get_def portMap_def)

lemma example_canonical_empty:
  "canonicalAddress exampleTransport [] = '':443''"
  by (simp add: canonicalAddress_def exampleTransport_def net_JoinHostPort_def
      portMap_get_def portMap_def)

lemma example_first_response:
  "inner_RoundTrip exampleEnv [] r = Inr \<lparr>StatusCode = 401, Body = Bytes []\<rparr>"
  "inner_RoundTrip failingEnv [] r = Inr \<lparr>StatusCode = 401, Body = Bytes []\<rparr>"
  by (simp_all add: exampleEnv_def failingEnv_def)

lemma example_later_response:
  "roundTrips h \<noteq> [] \<Longrightarrow> inner_RoundTrip exampleEnv h r = Inr \<lparr>StatusCode = 200, Body = Bytes ''ok''\<rparr>"
  by (simp add: exampleEnv_def)

lemma example_refresh:
  "\<exists>h'. refresh exampleEnv exampleTransport h
     = (None, exampleTransport\<lparr>bearer := Some \<lparr>Bearer_Token = ''xyz''\<rparr>\<rparr>, h')"
  by (simp add: refresh_def refreshContent_def fetchContent_def refreshBasic_def
      installToken_def CheckError_def StatusOK_def exampleEnv_def exampleTransport_def
      FromConfig_def Let_def)

lemma failing_refresh:
  "\<exists>h'. refresh failingEnv exampleTransport h
     = (Some (ExternalError ''connection refused''), exampleTransport, h')"
  by (simp add: refresh_def refreshContent_def fetchContent_def refreshBasic_def
      refreshOauth_def CheckError_def StatusOK_def failingEnv_def exampleEnv_def
      exampleTransport_def FromConfig_def Let_def)

lemma example_auth:
  "Authorization (basic exampleTransport)
     = Inr \<lparr>Username = ''user'', Password = ''pass'', IdentityToken = [], RegistryToken = []\<rparr>"
  "Authorization (basic identityTransport)
     = Inr \<lparr>Username = [], Password = [], IdentityToken = ''idtoken'', RegistryToken = []\<rparr>"
  "Authorization (basic anonymousTransport)
     = Inr \<lparr>Username = [], Password = [], IdentityToken = [], RegistryToken = []\<rparr>"
  by (simp_all add: exampleTransport_def identityTransport_def anonymousTransport_def
      FromConfig_def)

lemma example_parse:
  "url_Parse exampleEnv (realm exampleTransport) = Inr exampleURL"
  "url_Parse exampleEnv (realm identityTransport) = Inr exampleURL"
  "url_Parse exampleEnv (realm anonymousTransport) = Inr exampleURL"
  "url_Parse failingEnv (realm identityTransport) = Inr exampleURL"
  "url_Parse rejectingEnv (realm identityTransport) = Inr exampleURL"
  by (simp_all add: exampleEnv_def failingEnv_def rejectingEnv_def exampleTransport_def
      identityTransport_def anonymousTransport_def)

lemma example_flows:
  "\<exists>k'. runFlow exampleEnv identityTransport Oauth k = (Inr ''rotating'', k')"
  "\<exists>k'. runFlow exampleEnv exampleTransport Basic k = (Inr ''plain'', k')"
  "\<exists>k'. runFlow emptyObjectEnv exampleTransport Basic k = (Inr ''{}'', k')"
  "\<exists>k'. runFlow failingEnv exampleTransport Basic k
           = (Inl (StatusError 403 (Bytes ''denied'')), k')"
  "\<exists>k'. runFlow failingEnv exampleTransport Oauth k
           = (Inl (ExternalError ''connection refused''), k')"
  by (simp_all add: runFlow_def refreshOauth_def refreshBasic_def CheckError_def StatusOK_def
      exampleEnv_def failingEnv_def emptyObjectEnv_def exampleTransport_def
      identityTransport_def FromConfig_def Let_def)

lemma example_json:
  "json_Unmarshal exampleEnv ''rotating''
     = Inr \<lparr>Token = ''B'', AccessToken = ''A'', RefreshToken = ''R''\<rparr>"
  "json_Unmarshal exampleEnv ''plain''
     = Inr \<lparr>Token = ''xyz'', AccessToken = [], RefreshToken = []\<rparr>"
  "json_Unmarshal emptyObjectEnv ''{}''
     = Inr \<lparr>Token = [], AccessToken = [], RefreshToken = []\<rparr>"
  by (simp_all add: exampleEnv_def emptyObjectEnv_def)

lemma example_content:
  "\<exists>k. refreshContent exampleEnv identityTransport h = (Inr ''rotating'', k)"
  "\<exists>k. refreshContent exampleEnv exampleTransport h = (Inr ''plain'', k)"
  "\<exists>k. refreshContent emptyObjectEnv exampleTransport h = (Inr ''{}'', k)"
  using example_flows(1) [of "h @ [RefreshEv]"] example_flows(2) [of "h @ [RefreshEv]"]
    example_flows(3) [of "h @ [RefreshEv]"]
  by (auto simp: refreshContent_flows [OF example_auth(1)] refreshContent_flows [OF example_auth(2)])

subsection \<open>C1: the bearer token goes to the registry host only\<close>

text \<open>
  Claim C1. For every request the dispatcher hands to the wrapped transport (the transport
  holding a bearer credential \<open>b\<close>): if the canonical form of the request's \<^verbatim>\<open>Host\<close> field
  or of its URL host equals the canonical form of the registry host, the request goes out
  with the header \<^verbatim>\<open>Authorization: Bearer <token of b>\<close> and with the URL scheme of the
  transport; if neither matches, the \<^verbatim>\<open>Authorization\<close> header and the URL scheme go out as
  the caller gave them. The hosts of the request are not changed in either case.
\<close>

theorem sendRequest_authorization_iff_host_match:
  assumes "bearer bt = Some b"
  shows "case sendRequest env bt req h of
           (res, req', h') \<Rightarrow>
             h' = h @ [RoundTripEv req'] \<and> res = inner_RoundTrip env h req'
             \<and> Host req' = Host req \<and> URL_Host (URL req') = URL_Host (URL req)
             \<and> (if canonicalAddress bt (Host req) = canonicalAddress bt (registry bt)
                    \<or> canonicalAddress bt (URL_Host (URL req)) = canonicalAddress bt (registry bt)
                 then Header req' ''Authorization'' = Some [''Bearer '' @ Bearer_Token b]
                      \<and> URL_Scheme (URL req') = scheme bt
                 else Header req' ''Authorization'' = Header req ''Authorization''
                      \<and> URL_Scheme (URL req') = URL_Scheme (URL req))"
proof -
  from assms have a: "Bearer_Authorization (bearer bt)
      = Inr \<lparr>Username = [], Password = [], IdentityToken = [],
             RegistryToken = Bearer_Token b\<rparr>"
    by (simp add: Bearer_Authorization_def)
  show ?thesis
  proof (cases "canonicalAddress bt (Host req) = canonicalAddress bt (registry bt)
                  \<or> canonicalAddress bt (URL_Host (URL req)) = canonicalAddress bt (registry bt)")
    case True
    with a show ?thesis
      by (simp add: sendRequest_def Let_def Header_Set_def)
  next
    case False
    with a show ?thesis
      by (simp add: sendRequest_def Let_def Header_Set_def)
  qed
qed

theorem sendRequest_authorization_iff_host_match_witness:
  "bearer exampleTransport = Some \<lparr>Bearer_Token = ''old''\<rparr>
   \<and> Header (fst (snd (sendRequest exampleEnv exampleTransport exampleRequest [])))
        ''Authorization'' = Some [''Bearer old'']
   \<and> URL_Scheme (URL (fst (snd (sendRequest exampleEnv exampleTransport exampleRequest []))))
        = ''https''
   \<and> Header (fst (snd (sendRequest exampleEnv exampleTransport redirectedRequest [])))
        ''Authorization'' = None
   \<and> URL_Scheme (URL (fst (snd (sendRequest exampleEnv exampleTransport redirectedRequest []))))
        = ''http''"
proof -
  have m: "canonicalAddress exampleTransport (URL_Host (URL exampleRequest))
             = canonicalAddress exampleTransport (registry exampleTransport)"
    by (simp add: exampleRequest_def exampleTransport_def)
  have s: "scheme exampleTransport = ''https''" by (simp add: exampleTransport_def)
  have n: "canonicalAddress exampleTransport (Host redirectedRequest)
             \<noteq> canonicalAddress exampleTransport (registry exampleTransport)"
    "canonicalAddress exampleTransport (URL_Host (URL redirectedRequest))
             \<noteq> canonicalAddress exampleTransport (registry exampleTransport)"
    by (simp_all add: redirectedRequest_def example_canonical_registry example_canonical_cdn
        example_canonical_empty)
  have r: "Header redirectedRequest ''Authorization'' = None"
    "URL_Scheme (URL redirectedRequest) = ''http''"
    by (simp_all add: redirectedRequest_def)
  from sendRequest_authorization_iff_host_match
    [OF example_bearer, where env = exampleEnv and req = exampleRequest and h = "[]"] m s
  have a: "Header (fst (snd (sendRequest exampleEnv exampleTransport exampleRequest [])))
        ''Authorization'' = Some [''Bearer old'']
    \<and> URL_Scheme (URL (fst (snd (sendRequest exampleEnv exampleTransport exampleRequest []))))
        = ''https''"
    by (auto split: prod.splits)
  from sendRequest_authorization_iff_host_match
    [OF example_bearer, where env = exampleEnv and req = redirectedRequest and h = "[]"] n r
  have b: "Header (fst (snd (sendRequest exampleEnv exampleTransport redirectedRequest [])))
        ''Authorization'' = None
    \<and> URL_Scheme (URL (fst (snd (sendRequest exampleEnv exampleTransport redirectedRequest []))))
        = ''http''"
    by (auto split: prod.splits)
  from a b example_bearer show ?thesis by blast
qed

subsection \<open>C2: one refresh and, when it succeeds, one retry\<close>

text \<open>
  Claim C2, as amended. Let the first send return a response. If its status is 401, exactly
  one refresh is performed. If that refresh succeeds, the same request is sent exactly once
  more (same method, hosts and URL as the first send), and what the wrapped transport answers
  to it, another 401 included, is returned with no further refresh or send. If the refresh
  fails, its error is returned, the transport is as before, and the request is not sent
  again. If the status is not 401, the response is returned as it is, with no refresh and
  no second send.
\<close>

theorem RoundTrip_one_refresh_one_retry:
  assumes "sendRequest env bt req h = (Inr res, req1, h1)"
  shows "if StatusCode res = StatusUnauthorized
         then (case refresh env bt h1 of
                 (None, bt2, h2) \<Rightarrow>
                   (case sendRequest env bt2 req1 h2 of
                      (r, req2, h3) \<Rightarrow>
                        RoundTrip env bt req h = (r, bt2, req2, h3)
                        \<and> r = inner_RoundTrip env h2 req2
                        \<and> URL req2 = URL req1 \<and> Host req2 = Host req1
                        \<and> Method req2 = Method req1
                        \<and> refreshes h3 = refreshes h + 1
                        \<and> roundTrips h3 = roundTrips h @ [req1, req2])
               | (Some err, bt2, h2) \<Rightarrow>
                   RoundTrip env bt req h = (Inl err, bt, req1, h2)
                   \<and> refreshes h2 = refreshes h + 1
                   \<and> roundTrips h2 = roundTrips h @ [req1])
         else RoundTrip env bt req h = (Inr res, bt, req1, h1)
              \<and> refreshes h1 = refreshes h
              \<and> roundTrips h1 = roundTrips h @ [req1]"
proof -
  from sendRequest_Inr [OF assms] have h1: "h1 = h @ [RoundTripEv req1]" by simp
  show ?thesis
  proof (cases "StatusCode res = StatusUnauthorized")
    case False
    with assms h1 show ?thesis
      by (simp add: RoundTrip_def roundTrips_append refreshes_append)
  next
    case True
    obtain e bt2 h2 where r: "refresh env bt h1 = (e, bt2, h2)" by (metis prod_cases3)
    from refresh_events [OF r] h1
    have ev: "roundTrips h2 = roundTrips h @ [req1]" "refreshes h2 = refreshes h + 1"
      by (simp_all add: roundTrips_append refreshes_append)
    show ?thesis
    proof (cases e)
      case (Some err)
      with r have "bt2 = bt" by (auto dest: refresh_error)
      with True assms r Some ev show ?thesis by (simp add: RoundTrip_def)
    next
      case None
      with r obtain b where "bearer bt2 = Some b" by (auto dest: refresh_success)
      from sendRequest_bearer [OF this, of env req1 h2] obtain req2 where
        s2: "sendRequest env bt2 req1 h2 = (inner_RoundTrip env h2 req2, req2, h2 @ [RoundTripEv req2])"
        by blast
      from sendRequest_Inr [OF assms] have "bearer bt \<noteq> None" by simp
      with sendRequest_twice [OF assms s2] refresh_preserves [OF r]
      have "URL req2 = URL req1 \<and> Host req2 = Host req1 \<and> Method req2 = Method req1"
        by simp
      with s2 True assms r None ev show ?thesis
        by (simp add: RoundTrip_def roundTrips_append refreshes_append)
    qed
  qed
qed

theorem RoundTrip_one_refresh_one_retry_witness:
  "fst (sendRequest exampleEnv exampleTransport exampleRequest [])
     = Inr \<lparr>StatusCode = 401, Body = Bytes []\<rparr>
   \<and> fst (RoundTrip exampleEnv exampleTransport exampleRequest [])
       = Inr \<lparr>StatusCode = 200, Body = Bytes ''ok''\<rparr>
   \<and> refreshes (snd (snd (snd (RoundTrip exampleEnv exampleTransport exampleRequest [])))) = 1
   \<and> length (roundTrips (snd (snd (snd (RoundTrip exampleEnv exampleTransport exampleRequest [])))))
       = 2"
proof -
  from sendRequest_bearer [OF example_bearer, of exampleEnv exampleRequest "[]"]
  obtain req1 where
    s1: "sendRequest exampleEnv exampleTransport exampleRequest []
           = (Inr \<lparr>StatusCode = 401, Body = Bytes []\<rparr>, req1, [RoundTripEv req1])"
    by (auto simp: example_first_response)
  from example_refresh [of "[RoundTripEv req1]"] obtain h2 where
    r: "refresh exampleEnv exampleTransport [RoundTripEv req1]
          = (None, exampleTransport\<lparr>bearer := Some \<lparr>Bearer_Token = ''xyz''\<rparr>\<rparr>, h2)"
    by blast
  from refresh_events [OF r] have "roundTrips h2 \<noteq> []" by simp
  then have later: "inner_RoundTrip exampleEnv h2 q = Inr \<lparr>StatusCode = 200, Body = Bytes ''ok''\<rparr>" for q
    by (rule example_later_response)
  from RoundTrip_one_refresh_one_retry [OF s1] r later s1 show ?thesis
    by (auto simp: StatusUnauthorized_def split: prod.splits)
qed

text \<open>
  The claim as stated, that after a 401 the request is always sent once more, fails where
  the refresh fails: in \<open>failingEnv\<close> the registry answers 401, both token flows fail, and
  \<^verbatim>\<open>RoundTrip\<close> returns the error of the refresh after a single send.
\<close>

theorem RoundTrip_no_retry_when_refresh_fails:
  "fst (sendRequest failingEnv exampleTransport exampleRequest [])
     = Inr \<lparr>StatusCode = 401, Body = Bytes []\<rparr>
   \<and> fst (RoundTrip failingEnv exampleTransport exampleRequest [])
       = Inl (ExternalError ''connection refused'')
   \<and> length (roundTrips (snd (snd (snd (RoundTrip failingEnv exampleTransport exampleRequest [])))))
       = 1"
proof -
  from sendRequest_bearer [OF example_bearer, of failingEnv exampleRequest "[]"]
  obtain req1 where
    s1: "sendRequest failingEnv exampleTransport exampleRequest []
           = (Inr \<lparr>StatusCode = 401, Body = Bytes []\<rparr>, req1, [RoundTripEv req1])"
    by (auto simp: example_first_response)
  from failing_refresh [of "[RoundTripEv req1]"] obtain h2 where
    r: "refresh failingEnv exampleTransport [RoundTripEv req1]
          = (Some (ExternalError ''connection refused''), exampleTransport, h2)"
    by blast
  from refresh_events [OF r] have "roundTrips h2 = [req1]" by simp
  with s1 r show ?thesis
    by (simp add: RoundTrip_def StatusUnauthorized_def)
qed

subsection \<open>C3: the order of the two token flows\<close>

text \<open>
  Claim C3. If the long-lived credential yields an error instead of authorization
  materials, \<^verbatim>\<open>refresh\<close> fails with it and enters no flow. Otherwise the flow entered
  first is the OAuth2 flow if the identity token is not empty and the basic flow otherwise;
  the other flow is entered only if the first one fails, and from the events the first one
  left. So one or two flows are entered, never more, and the body that \<^verbatim>\<open>refresh\<close> goes on
  to decode is the body of the first flow that succeeded. If both fail, \<^verbatim>\<open>refresh\<close> fails.
\<close>

theorem refresh_flow_order:
  "case Authorization (basic bt) of
     Inl e \<Rightarrow> refresh env bt h = (Some e, bt, h @ [RefreshEv])
   | Inr auth \<Rightarrow>
       (let first = (if IdentityToken auth \<noteq> [] then Oauth else Basic);
            second = (if IdentityToken auth \<noteq> [] then Basic else Oauth)
        in case runFlow env bt first (h @ [RefreshEv]) of
             (Inr b, h1) \<Rightarrow>
               refreshContent env bt h = (Inr b, h1)
               \<and> flows h1 = flows h @ [first]
               \<and> refresh env bt h
                   = (case installToken env bt b of (err, bt1) \<Rightarrow> (err, bt1, h1))
           | (Inl e1, h1) \<Rightarrow>
               (case runFlow env bt second h1 of
                  (Inr b, h2) \<Rightarrow>
                    refreshContent env bt h = (Inr b, h2)
                    \<and> flows h2 = flows h @ [first, second]
                    \<and> refresh env bt h
                        = (case installToken env bt b of (err, bt1) \<Rightarrow> (err, bt1, h2))
                | (Inl e2, h2) \<Rightarrow>
                    refreshContent env bt h = (Inl e2, h2)
                    \<and> flows h2 = flows h @ [first, second]
                    \<and> refresh env bt h = (Some e2, bt, h2)))"
proof (cases "Authorization (basic bt)")
  case (Inl e)
  then show ?thesis by (simp add: refresh_def refreshContent_def Let_def)
next
  case (Inr auth)
  define first where "first = (if IdentityToken auth \<noteq> [] then Oauth else Basic)"
  define second where "second = (if IdentityToken auth \<noteq> [] then Basic else Oauth)"
  obtain r1 h1 where f: "runFlow env bt first (h @ [RefreshEv]) = (r1, h1)" by force
  obtain r2 h2 where s: "runFlow env bt second h1 = (r2, h2)" by force
  from runFlow_events [OF f] have fl1: "flows h1 = flows h @ [first]"
    by (simp add: flows_append)
  with runFlow_events [OF s] have fl2: "flows h2 = flows h @ [first, second]" by simp
  have c: "refreshContent env bt h = (case r1 of Inr b \<Rightarrow> (Inr b, h1) | Inl e1 \<Rightarrow> (r2, h2))"
    using refreshContent_flows [OF Inr, of env h] f s
    by (cases r1) (simp_all add: first_def second_def)
  show ?thesis
  proof (cases r1)
    case r1: (Inr b)
    with c have "refreshContent env bt h = (Inr b, h1)" by simp
    with f r1 fl1 Inr show ?thesis
      by (simp add: first_def [symmetric] second_def [symmetric] refresh_content_ok Let_def)
  next
    case r1: (Inl e1)
    with c have c2: "refreshContent env bt h = (r2, h2)" by simp
    show ?thesis
    proof (cases r2)
      case (Inr b)
      with c2 f s r1 fl2 \<open>Authorization (basic bt) = Inr auth\<close> show ?thesis
        by (simp add: first_def [symmetric] second_def [symmetric] refresh_content_ok Let_def)
    next
      case (Inl e2)
      with c2 f s r1 fl2 \<open>Authorization (basic bt) = Inr auth\<close> show ?thesis
        by (simp add: first_def [symmetric] second_def [symmetric] refresh_content_error Let_def)
    qed
  qed
qed

theorem refresh_flow_order_witness:
  "Authorization (basic identityTransport)
     = Inr \<lparr>Username = [], Password = [], IdentityToken = ''idtoken'', RegistryToken = []\<rparr>
   \<and> fst (refreshContent exampleEnv identityTransport []) = Inr ''rotating''
   \<and> flows (snd (refreshContent exampleEnv identityTransport [])) = [Oauth]
   \<and> fst (refreshContent exampleEnv exampleTransport []) = Inr ''plain''
   \<and> flows (snd (refreshContent exampleEnv exampleTransport [])) = [Basic]
   \<and> fst (refreshContent failingEnv exampleTransport [])
       = Inl (ExternalError ''connection refused'')
   \<and> flows (snd (refreshContent failingEnv exampleTransport [])) = [Basic, Oauth]"
proof -
  from example_flows(1) [of "[RefreshEv]"] obtain k1 where
    f1: "runFlow exampleEnv identityTransport Oauth [RefreshEv] = (Inr ''rotating'', k1)"
    by blast
  from refresh_flow_order [where bt = identityTransport and env = exampleEnv and h = "[]"] example_auth(2) f1
  have a: "fst (refreshContent exampleEnv identityTransport []) = Inr ''rotating''
    \<and> flows (snd (refreshContent exampleEnv identityTransport [])) = [Oauth]"
    by (simp add: Let_def)
  from example_flows(2) [of "[RefreshEv]"] obtain k2 where
    f2: "runFlow exampleEnv exampleTransport Basic [RefreshEv] = (Inr ''plain'', k2)"
    by blast
  from refresh_flow_order [where bt = exampleTransport and env = exampleEnv and h = "[]"] example_auth(1) f2
  have b: "fst (refreshContent exampleEnv exampleTransport []) = Inr ''plain''
    \<and> flows (snd (refreshContent exampleEnv exampleTransport [])) = [Basic]"
    by (simp add: Let_def)
  from example_flows(4) [of "[RefreshEv]"] obtain k3 where
    f3: "runFlow failingEnv exampleTransport Basic [RefreshEv]
           = (Inl (StatusError 403 (Bytes ''denied'')), k3)"
    by blast
  from example_flows(5) [of k3] obtain k4 where
    f4: "runFlow failingEnv exampleTransport Oauth k3
           = (Inl (ExternalError ''connection refused''), k4)"
    by blast
  from refresh_flow_order [where bt = exampleTransport and env = failingEnv and h = "[]"] example_auth(1) f3 f4
  have c: "fst (refreshContent failingEnv exampleTransport [])
       = Inl (ExternalError ''connection refused'')
    \<and> flows (snd (refreshContent failingEnv exampleTransport [])) = [Basic, Oauth]"
    by (simp add: Let_def)
  from a b c example_auth(2) show ?thesis by blast
qed

subsection \<open>C4: access_token before token, and the error without either\<close>

text \<open>
  Claim C4. Let \<^verbatim>\<open>refresh\<close> have fetched a body that decodes to a token response. If
  \<^verbatim>\<open>access_token\<close> is not empty, \<^verbatim>\<open>refresh\<close> succeeds and the new bearer token is
  \<^verbatim>\<open>access_token\<close>, whatever \<^verbatim>\<open>token\<close> holds. If \<^verbatim>\<open>access_token\<close> is empty and
  \<^verbatim>\<open>token\<close> is not, the new bearer token is \<^verbatim>\<open>token\<close>. If both are empty, \<^verbatim>\<open>refresh\<close>
  fails with the error \<^verbatim>\<open>no token in bearer response:\<close>, a newline and the body as it was
  received, and the transport is unchanged.
\<close>

theorem refresh_token_precedence:
  assumes "refreshContent env bt h = (Inr content, h1)"
    and "json_Unmarshal env content = Inr resp"
  shows "if AccessToken resp \<noteq> []
         then fst (refresh env bt h) = None
              \<and> bearer (fst (snd (refresh env bt h))) = Some \<lparr>Bearer_Token = AccessToken resp\<rparr>
         else if Token resp \<noteq> []
         then fst (refresh env bt h) = None
              \<and> bearer (fst (snd (refresh env bt h))) = Some \<lparr>Bearer_Token = Token resp\<rparr>
         else refresh env bt h
                = (Some (Errorf (''no token in bearer response:'' @ [CHR 0x0A] @ content)), bt, h1)"
proof -
  from assms(1) have r: "refresh env bt h
      = (case installToken env bt content of (err, bt1) \<Rightarrow> (err, bt1, h1))"
    by (rule refresh_content_ok)
  show ?thesis
  proof (cases "AccessToken resp \<noteq> []")
    case True
    with assms(2) have "\<exists>bt1. installToken env bt content = (None, bt1)
        \<and> bearer bt1 = Some \<lparr>Bearer_Token = AccessToken resp\<rparr>"
      by (simp add: installToken_def Let_def)
    with r True show ?thesis by auto
  next
    case False
    show ?thesis
    proof (cases "Token resp \<noteq> []")
      case True
      with False assms(2) have "\<exists>bt1. installToken env bt content = (None, bt1)
          \<and> bearer bt1 = Some \<lparr>Bearer_Token = Token resp\<rparr>"
        by (simp add: installToken_def Let_def)
      with r True False show ?thesis by auto
    next
      case empty: False
      with False assms(2) have "installToken env bt content
          = (Some (Errorf (''no token in bearer response:'' @ [CHR 0x0A] @ content)), bt)"
        by (simp add: installToken_def Let_def)
      with r empty False show ?thesis by simp
    qed
  qed
qed

theorem refresh_token_precedence_witness:
  "fst (refreshContent exampleEnv identityTransport []) = Inr ''rotating''
   \<and> json_Unmarshal exampleEnv ''rotating''
       = Inr \<lparr>Token = ''B'', AccessToken = ''A'', RefreshToken = ''R''\<rparr>
   \<and> bearer (fst (snd (refresh exampleEnv identityTransport [])))
       = Some \<lparr>Bearer_Token = ''A''\<rparr>
   \<and> bearer (fst (snd (refresh exampleEnv exampleTransport [])))
       = Some \<lparr>Bearer_Token = ''xyz''\<rparr>
   \<and> fst (refresh emptyObjectEnv exampleTransport [])
       = Some (Errorf (''no token in bearer response:'' @ [CHR 0x0A] @ ''{}''))"
proof -
  from example_content(1) [of "[]"] obtain k1 where
    c1: "refreshContent exampleEnv identityTransport [] = (Inr ''rotating'', k1)" by blast
  from example_content(2) [of "[]"] obtain k2 where
    c2: "refreshContent exampleEnv exampleTransport [] = (Inr ''plain'', k2)" by blast
  from example_content(3) [of "[]"] obtain k3 where
    c3: "refreshContent emptyObjectEnv exampleTransport [] = (Inr ''{}'', k3)" by blast
  from refresh_token_precedence [OF c1 example_json(1)]
  have a: "bearer (fst (snd (refresh exampleEnv identityTransport [])))
       = Some \<lparr>Bearer_Token = ''A''\<rparr>" by simp
  from refresh_token_precedence [OF c2 example_json(2)]
  have b: "bearer (fst (snd (refresh exampleEnv exampleTransport [])))
       = Some \<lparr>Bearer_Token = ''xyz''\<rparr>" by simp
  from refresh_token_precedence [OF c3 example_json(3)]
  have c: "fst (refresh emptyObjectEnv exampleTransport [])
       = Some (Errorf (''no token in bearer response:'' @ [CHR 0x0A] @ ''{}''))" by simp
  from a b c c1 example_json(1) show ?thesis by simp
qed

subsection \<open>C5: a refresh token replaces the long-lived credential\<close>

text \<open>
  Claim C5. Let \<^verbatim>\<open>refresh\<close> succeed on a body that decodes to a token response. If its
  \<^verbatim>\<open>refresh_token\<close> is not empty, the long-lived credential of the transport becomes the
  credential built from a configuration whose only field is that identity token, and every
  refresh of a transport that holds this credential and this realm (the transport as it is
  from then on, until a later response rotates the token again) begins with the OAuth2
  flow and posts a form with \<^verbatim>\<open>grant_type=refresh_token\<close> and that token as
  \<^verbatim>\<open>refresh_token\<close>, and with no \<^verbatim>\<open>username\<close> and no \<^verbatim>\<open>password\<close>. If
  \<^verbatim>\<open>refresh_token\<close> is empty, the long-lived credential is the one the transport had.
\<close>

theorem refresh_rotates_credential:
  assumes "refreshContent env bt h = (Inr content, h1)"
    and "json_Unmarshal env content = Inr resp"
    and "refresh env bt h = (None, bt', h')"
  shows "if RefreshToken resp \<noteq> []
         then basic bt' = FromConfig \<lparr>Username = [], Password = [],
                                      IdentityToken = RefreshToken resp, RegistryToken = []\<rparr>
              \<and> (\<exists>u. url_Parse env (realm bt') = Inr u
                    \<and> (\<forall>bt2 k. basic bt2 = basic bt' \<and> realm bt2 = realm bt' \<longrightarrow>
                          (\<exists>v rest.
                             snd (snd (refresh env bt2 k))
                               = k @ [RefreshEv, FlowEv Oauth, PostFormEv (url_String env u) v]
                                   @ rest
                             \<and> v ''grant_type'' = Some [''refresh_token'']
                             \<and> v ''refresh_token'' = Some [RefreshToken resp]
                             \<and> v ''username'' = None \<and> v ''password'' = None)))
         else basic bt' = basic bt"
proof (cases "RefreshToken resp \<noteq> []")
  case False
  with assms show ?thesis
    by (auto simp: refresh_content_ok installToken_def Let_def split: if_splits)
next
  case True
  define cfg where "cfg = \<lparr>Username = [], Password = [],
                           IdentityToken = RefreshToken resp, RegistryToken = []\<rparr>"
  from True assms have bt': "basic bt' = FromConfig cfg" "realm bt' = realm bt"
    by (auto simp: refresh_content_ok installToken_def Let_def cfg_def split: if_splits)
  from refreshContent_Inr_parses [OF assms(1)] bt'(2) obtain u where
    u: "url_Parse env (realm bt') = Inr u" by auto
  from True have id: "IdentityToken cfg \<noteq> []" by (simp add: cfg_def)
  have later: "\<exists>v rest.
      snd (snd (refresh env bt2 k))
        = k @ [RefreshEv, FlowEv Oauth, PostFormEv (url_String env u) v] @ rest
      \<and> v ''grant_type'' = Some [''refresh_token'']
      \<and> v ''refresh_token'' = Some [RefreshToken resp]
      \<and> v ''username'' = None \<and> v ''password'' = None"
    if eq: "basic bt2 = basic bt' \<and> realm bt2 = realm bt'" for bt2 k
  proof -
    from eq bt'(1) have a: "Authorization (basic bt2) = Inr cfg" by (simp add: FromConfig_def)
    from eq u have u2: "url_Parse env (realm bt2) = Inr u" by simp
    define v where "v = oauthForm env bt2 cfg"
    from True have form: "v ''grant_type'' = Some [''refresh_token'']"
      "v ''refresh_token'' = Some [RefreshToken resp]"
      "v ''username'' = None" "v ''password'' = None"
      by (simp_all add: v_def oauthForm_def Values_Set_def cfg_def Let_def)
    from refresh_presents_identity_token [OF a id u2, of k] obtain rest where
      "snd (snd (refresh env bt2 k))
         = k @ [RefreshEv, FlowEv Oauth, PostFormEv (url_String env u) v] @ rest"
      by (auto simp: v_def)
    with form show ?thesis by blast
  qed
  with u have "\<exists>u. url_Parse env (realm bt') = Inr u
      \<and> (\<forall>bt2 k. basic bt2 = basic bt' \<and> realm bt2 = realm bt' \<longrightarrow>
            (\<exists>v rest.
               snd (snd (refresh env bt2 k))
                 = k @ [RefreshEv, FlowEv Oauth, PostFormEv (url_String env u) v] @ rest
               \<and> v ''grant_type'' = Some [''refresh_token'']
               \<and> v ''refresh_token'' = Some [RefreshToken resp]
               \<and> v ''username'' = None \<and> v ''password'' = None))"
    by blast
  with True bt'(1) show ?thesis by (simp add: cfg_def)
qed

theorem refresh_rotates_credential_witness:
  "fst (refreshContent exampleEnv identityTransport []) = Inr ''rotating''
   \<and> json_Unmarshal exampleEnv ''rotating''
       = Inr \<lparr>Token = ''B'', AccessToken = ''A'', RefreshToken = ''R''\<rparr>
   \<and> fst (refresh exampleEnv identityTransport []) = None
   \<and> basic (fst (snd (refresh exampleEnv identityTransport [])))
       = FromConfig \<lparr>Username = [], Password = [], IdentityToken = ''R'', RegistryToken = []\<rparr>
   \<and> basic (fst (snd (refresh exampleEnv exampleTransport []))) = basic exampleTransport"
proof -
  from example_content(1) [of "[]"] obtain k1 where
    c1: "refreshContent exampleEnv identityTransport [] = (Inr ''rotating'', k1)" by blast
  from example_content(2) [of "[]"] obtain k2 where
    c2: "refreshContent exampleEnv exampleTransport [] = (Inr ''plain'', k2)" by blast
  obtain bt1 where r1: "refresh exampleEnv identityTransport [] = (None, bt1, k1)"
    using c1 example_json(1) by (simp add: refresh_content_ok installToken_def Let_def)
  obtain bt2 where r2: "refresh exampleEnv exampleTransport [] = (None, bt2, k2)"
    using c2 example_json(2) by (simp add: refresh_content_ok installToken_def Let_def)
  from refresh_rotates_credential [OF c1 example_json(1) r1]
  have a: "basic bt1
       = FromConfig \<lparr>Username = [], Password = [], IdentityToken = ''R'', RegistryToken = []\<rparr>"
    by simp
  from refresh_rotates_credential [OF c2 example_json(2) r2]
  have b: "basic bt2 = basic exampleTransport" by simp
  from a b c1 r1 r2 example_json(1) show ?thesis by simp
qed

subsection \<open>C7: the error of the second flow is the one returned\<close>

text \<open>
  Claim C7. Let the long-lived credential yield authorization materials, let the flow
  entered first fail with \<open>e1\<close> and the flow entered second fail with \<open>e2\<close>. Then \<^verbatim>\<open>refresh\<close>
  returns \<open>e2\<close>; \<open>e1\<close> is in no part of the result.
\<close>

theorem refresh_returns_second_error:
  assumes "Authorization (basic bt) = Inr auth"
    and "runFlow env bt (if IdentityToken auth \<noteq> [] then Oauth else Basic) (h @ [RefreshEv])
           = (Inl e1, h1)"
    and "runFlow env bt (if IdentityToken auth \<noteq> [] then Basic else Oauth) h1 = (Inl e2, h2)"
  shows "refresh env bt h = (Some e2, bt, h2)"
proof -
  from refreshContent_flows [OF assms(1), of env h] assms(2,3)
  have "refreshContent env bt h = (Inl e2, h2)" by simp
  then show ?thesis by (rule refresh_content_error)
qed

theorem refresh_returns_second_error_witness:
  "Authorization (basic exampleTransport)
     = Inr \<lparr>Username = ''user'', Password = ''pass'', IdentityToken = [], RegistryToken = []\<rparr>
   \<and> fst (runFlow failingEnv exampleTransport Basic [RefreshEv])
       = Inl (StatusError 403 (Bytes ''denied''))
   \<and> fst (runFlow failingEnv exampleTransport Oauth
             (snd (runFlow failingEnv exampleTransport Basic [RefreshEv])))
       = Inl (ExternalError ''connection refused'')
   \<and> fst (refresh failingEnv exampleTransport []) = Some (ExternalError ''connection refused'')
   \<and> fst (snd (refresh failingEnv exampleTransport [])) = exampleTransport"
proof -
  from example_flows(4) [of "[RefreshEv]"] obtain k3 where
    f3: "runFlow failingEnv exampleTransport Basic [RefreshEv]
           = (Inl (StatusError 403 (Bytes ''denied'')), k3)"
    by blast
  from example_flows(5) [of k3] obtain k4 where
    f4: "runFlow failingEnv exampleTransport Oauth k3
           = (Inl (ExternalError ''connection refused''), k4)"
    by blast
  have "refresh failingEnv exampleTransport []
          = (Some (ExternalError ''connection refused''), exampleTransport, k4)"
  proof (rule refresh_returns_second_error [OF example_auth(1)])
    show "runFlow failingEnv exampleTransport
            (if IdentityToken \<lparr>Username = ''user'', Password = ''pass'', IdentityToken = [],
                                RegistryToken = []\<rparr> \<noteq> [] then Oauth else Basic)
            ([] @ [RefreshEv]) = (Inl (StatusError 403 (Bytes ''denied'')), k3)"
      using f3 by simp
    show "runFlow failingEnv exampleTransport
            (if IdentityToken \<lparr>Username = ''user'', Password = ''pass'', IdentityToken = [],
                                RegistryToken = []\<rparr> \<noteq> [] then Basic else Oauth)
            k3 = (Inl (ExternalError ''connection refused''), k4)"
      using f4 by simp
  qed
  with f3 f4 example_auth(1) show ?thesis by simp
qed

subsection \<open>C8: an error of refresh changes nothing and ends the request\<close>



subsection \<open>C9: the POST of the OAuth2 flow\<close>

text \<open>
  Claim C9, as amended. Let the long-lived credential yield authorization materials and
  the realm parse to the URL \<open>u\<close>. The OAuth2 flow posts its form once, to \<^verbatim>\<open>u.String()\<close>:
  the realm URL as it was parsed and written out again. The flow adds no query string of
  its own and takes none away, so a query string that the realm carries is part of the
  target (the basic flow, in contrast, overwrites \<^verbatim>\<open>u.RawQuery\<close>). If the client returns
  an error, the flow fails with it. If the response has status 200, the flow returns the
  bytes of its body (or the error reading the body ends with). For any other status the
  flow fails with the error of \<^verbatim>\<open>CheckError\<close>, which carries the status and the body of
  the response.
\<close>

theorem refreshOauth_post_to_realm:
  assumes "Authorization (basic bt) = Inr auth" and "url_Parse env (realm bt) = Inr u"
  shows "snd (refreshOauth env bt h)
           = h @ [FlowEv Oauth, PostFormEv (url_String env u) (oauthForm env bt auth)]
         \<and> (case client_PostForm env (h @ [FlowEv Oauth]) (url_String env u)
                   (oauthForm env bt auth) of
               Inl err \<Rightarrow> fst (refreshOauth env bt h) = Inl err
             | Inr resp \<Rightarrow>
                 if StatusCode resp = 200
                 then (case Body resp of
                         Bytes b \<Rightarrow> fst (refreshOauth env bt h) = Inr b
                       | Unreadable msg \<Rightarrow> fst (refreshOauth env bt h) = Inl (ExternalError msg))
                 else fst (refreshOauth env bt h)
                        = Inl (StatusError (StatusCode resp) (Body resp)))"
proof -
  note r = refreshOauth_result [OF assms, of h]
  from r have events: "snd (refreshOauth env bt h)
      = h @ [FlowEv Oauth, PostFormEv (url_String env u) (oauthForm env bt auth)]"
    by simp
  show ?thesis
  proof (cases "client_PostForm env (h @ [FlowEv Oauth]) (url_String env u)
                  (oauthForm env bt auth)")
    case (Inl err)
    with r events show ?thesis by simp
  next
    case (Inr resp)
    show ?thesis
    proof (cases "StatusCode resp = 200")
      case True
      with r Inr have "fst (refreshOauth env bt h) = ioutil_ReadAll (Body resp)" by simp
      with events Inr True show ?thesis by (cases "Body resp") simp_all
    next
      case False
      with r Inr events show ?thesis by simp
    qed
  qed
qed

theorem refreshOauth_post_to_realm_witness:
  "Authorization (basic identityTransport)
     = Inr \<lparr>Username = [], Password = [], IdentityToken = ''idtoken'', RegistryToken = []\<rparr>
   \<and> url_Parse exampleEnv (realm identityTransport) = Inr exampleURL
   \<and> url_String exampleEnv exampleURL = ''https://auth.example.com/token''
   \<and> fst (refreshOauth exampleEnv identityTransport []) = Inr ''rotating''
   \<and> fst (refreshOauth rejectingEnv identityTransport [])
       = Inl (StatusError 404 (Bytes ''not found''))
   \<and> fst (refreshOauth failingEnv identityTransport [])
       = Inl (ExternalError ''connection refused'')"
proof -
  have s: "url_String exampleEnv exampleURL = ''https://auth.example.com/token''"
    by (simp add: exampleEnv_def exampleURL_def)
  from refreshOauth_post_to_realm [OF example_auth(2) example_parse(2), of "[]"]
  have a: "fst (refreshOauth exampleEnv identityTransport []) = Inr ''rotating''"
    by (simp add: exampleEnv_def)
  from refreshOauth_post_to_realm [OF example_auth(2) example_parse(5), of "[]"]
  have b: "fst (refreshOauth rejectingEnv identityTransport [])
       = Inl (StatusError 404 (Bytes ''not found''))"
    by (simp add: rejectingEnv_def)
  from refreshOauth_post_to_realm [OF example_auth(2) example_parse(4), of "[]"]
  have c: "fst (refreshOauth failingEnv identityTransport [])
       = Inl (ExternalError ''connection refused'')"
    by (simp add: failingEnv_def)
  from a b c s example_auth(2) example_parse(2) show ?thesis by simp
qed

text \<open>
  The claim as stated, that the target has no query string, fails for a realm that has
  one: with the realm \<^verbatim>\<open>https://auth.example.com/token?account=42\<close> the parsed URL has the
  raw query \<^verbatim>\<open>account=42\<close>, and the form is posted to the URL with \<^verbatim>\<open>?account=42\<close>.
\<close>

theorem refreshOauth_keeps_realm_query:
  "url_Parse queryEnv (realm queryTransport) = Inr queryURL
   \<and> URL_RawQuery queryURL = ''account=42''
   \<and> snd (refreshOauth queryEnv queryTransport [])
       = [FlowEv Oauth,
          PostFormEv ''https://auth.example.com/token?account=42''
            (oauthForm queryEnv queryTransport
               \<lparr>Username = [], Password = [], IdentityToken = ''idtoken'',
                RegistryToken = []\<rparr>)]
   \<and> CHR ''?'' \<in> set ''https://auth.example.com/token?account=42''
   \<and> fst (refreshOauth queryEnv queryTransport []) = Inr ''rotating''"
proof -
  have a: "Authorization (basic queryTransport)
      = Inr \<lparr>Username = [], Password = [], IdentityToken = ''idtoken'', RegistryToken = []\<rparr>"
    by (simp add: queryTransport_def identityTransport_def FromConfig_def)
  have p: "url_Parse queryEnv (realm queryTransport) = Inr queryURL"
    by (simp add: queryEnv_def queryTransport_def)
  have q: "URL_RawQuery queryURL = ''account=42''"
    by (simp add: queryURL_def)
  have s: "url_String queryEnv queryURL = ''https://auth.example.com/token?account=42''"
    by (simp add: queryEnv_def exampleEnv_def queryURL_def)
  have c: "client_PostForm queryEnv k t v = Inr \<lparr>StatusCode = 200, Body = Bytes ''rotating''\<rparr>"
    for k t v
    by (simp add: queryEnv_def exampleEnv_def)
  from refreshOauth_result [OF a p, of "[]"] s c
  have "refreshOauth queryEnv queryTransport []
      = (Inr ''rotating'',
         [FlowEv Oauth,
          PostFormEv ''https://auth.example.com/token?account=42''
            (oauthForm queryEnv queryTransport
               \<lparr>Username = [], Password = [], IdentityToken = ''idtoken'',
                RegistryToken = []\<rparr>)])"
    by simp
  with p q show ?thesis by simp
qed

subsection \<open>C10: the form without credentials\<close>

text \<open>
  Claim C10. Let the long-lived credential yield authorization materials whose identity
  token is empty and whose username or password is empty, and let the realm parse. The
  OAuth2 flow still posts its form, and the form has the keys \<^verbatim>\<open>scope\<close>, \<^verbatim>\<open>service\<close> and
  \<^verbatim>\<open>client_id\<close> and no other: no \<^verbatim>\<open>grant_type\<close> and no field of a grant.
\<close>

theorem refreshOauth_without_credentials:
  assumes "Authorization (basic bt) = Inr auth" and "url_Parse env (realm bt) = Inr u"
    and "IdentityToken auth = []" and "Username auth = [] \<or> Password auth = []"
  shows "snd (refreshOauth env bt h)
           = h @ [FlowEv Oauth, PostFormEv (url_String env u) (oauthForm env bt auth)]
         \<and> oauthForm env bt auth =
             [''scope'' \<mapsto> [strings_Join (scopes bt) '' ''], ''service'' \<mapsto> [service bt],
              ''client_id'' \<mapsto> [transportName env]]
         \<and> dom (oauthForm env bt auth) = {''scope'', ''service'', ''client_id''}"
proof -
  note form = oauthForm_no_grant [OF assms(3,4), of env bt]
  have "dom (oauthForm env bt auth) = {''scope'', ''service'', ''client_id''}"
    unfolding form by auto
  with form refreshOauth_result [OF assms(1,2), of h] show ?thesis by simp
qed

theorem refreshOauth_without_credentials_witness:
  "Authorization (basic anonymousTransport)
     = Inr \<lparr>Username = [], Password = [], IdentityToken = [], RegistryToken = []\<rparr>
   \<and> url_Parse exampleEnv (realm anonymousTransport) = Inr exampleURL
   \<and> length (snd (refreshOauth exampleEnv anonymousTransport [])) = 2
   \<and> dom (oauthForm exampleEnv anonymousTransport
            \<lparr>Username = [], Password = [], IdentityToken = [], RegistryToken = []\<rparr>)
       = {''scope'', ''service'', ''client_id''}"
proof -
  have i: "IdentityToken \<lparr>Username = [], Password = [], IdentityToken = [],
                           RegistryToken = []\<rparr> = []"
    by simp
  have up: "Username \<lparr>Username = [], Password = [], IdentityToken = [],
                       RegistryToken = []\<rparr> = []
            \<or> Password \<lparr>Username = [], Password = [], IdentityToken = [],
                          RegistryToken = []\<rparr> = []"
    by simp
  note w = refreshOauth_without_credentials [OF example_auth(3) example_parse(3) i up, of "[]"]
  from w have d: "dom (oauthForm exampleEnv anonymousTransport
            \<lparr>Username = [], Password = [], IdentityToken = [], RegistryToken = []\<rparr>)
       = {''scope'', ''service'', ''client_id''}"
    by blast
  from w have "snd (refreshOauth exampleEnv anonymousTransport [])
       = [] @ [FlowEv Oauth, PostFormEv (url_String exampleEnv exampleURL)
            (oauthForm exampleEnv anonymousTransport
               \<lparr>Username = [], Password = [], IdentityToken = [], RegistryToken = []\<rparr>)]"
    by blast
  then have "length (snd (refreshOauth exampleEnv anonymousTransport [])) = 2" by simp
  with d example_auth(3) example_parse(3) show ?thesis by blast
qed

end
